theory Spec2Isabelle
  imports Main "HOL-Library.Sublist"
begin

section \<open>Data model of tasks.py\<close>

text \<open>
  A worksheet cell as the table reader hands it over: a string, an integer, a boolean or
  an empty cell. Floating-point cells are outside this model.
\<close>

datatype cell = CStr string | CInt int | CBool bool | CNone

text \<open>
  One table row is a Python dict from column name to cell. It is kept as an association
  list in column order; a dict has distinct keys, so \<open>map_of\<close> is the dict lookup.
\<close>

type_synonym row = "(string \<times> cell) list"

text \<open>
  The exceptions that occur. \<open>ProcessError\<close> is the script's own class, \<open>KeyError\<close> is
  what a dict lookup raises, \<open>RetryError\<close> is what the retry decorator raises when it
  gives up (it holds the address of its future object and the last exception), and
  \<open>LibError cls msg\<close> is any other exception of class \<open>cls\<close> raised by a library.
  All of them derive from \<open>Exception\<close>; signals that do not (\<open>KeyboardInterrupt\<close>,
  \<open>SystemExit\<close>) are outside this model.
\<close>

datatype exn =
    ProcessError string
  | KeyError string
  | RetryError string exn
  | LibError string string

datatype level = INFO | ERROR

text \<open>The pieces of a formatted log message: literal text and interpolated values.\<close>

datatype piece = T string | C cell | R row | E exn | N nat

text \<open>The calls the script makes on its collaborators.\<close>

datatype action =
    Configure nat
  | Goto string
  | Page
  | Fill string cell
  | Click string
  | SelectOption string string
  | Screenshot string
  | InnerHtml string
  | NewHTTP
  | Download string bool
  | NewFiles
  | OpenWorkbook string
  | ReadWorksheet string bool
  | CloseWorkbook
  | NewPDF
  | HtmlToPdf string string

text \<open>
  What a run leaves behind, in order: log records, collaborator calls with their outcome
  (\<open>None\<close> when the call returned, \<open>Some e\<close> when it raised \<open>e\<close>), and the waits of the
  retry decorator.
\<close>

datatype event = Log level "piece list" | Call action "exn option" | Sleep nat

text \<open>
  The environment of a run: the two credentials read from the process environment
  (\<open>None\<close> when the variable is unset), and the behaviour of the collaborators, which may
  depend on everything that happened before.
\<close>

record env =
  USERNAME :: "string option"
  PASSWORD :: "string option"
  respond :: "event list \<Rightarrow> action \<Rightarrow> exn option"
  worksheet :: "event list \<Rightarrow> row list"
  region_html :: "event list \<Rightarrow> string"
  future_addr :: string

section \<open>Statements with exceptions and a trace\<close>

type_synonym 'a prog = "event list \<Rightarrow> (exn + 'a) \<times> event list"

definition ret :: "'a \<Rightarrow> 'a prog" where
  "ret x t = (Inr x, t)"

definition raise :: "exn \<Rightarrow> 'a prog" where
  "raise e t = (Inl e, t)"

definition bindE :: "'a prog \<Rightarrow> ('a \<Rightarrow> 'b prog) \<Rightarrow> 'b prog" where
  "bindE m k t = (case m t of (Inl e, t') \<Rightarrow> (Inl e, t') | (Inr x, t') \<Rightarrow> k x t')"

definition thenE :: "'a prog \<Rightarrow> 'b prog \<Rightarrow> 'b prog" where
  "thenE m k = bindE m (\<lambda>_. k)"

text \<open>\<open>try: m  except Exception as e: h e\<close>\<close>

definition try_except :: "'a prog \<Rightarrow> (exn \<Rightarrow> 'a prog) \<Rightarrow> 'a prog" where
  "try_except m h t = (case m t of (Inl e, t') \<Rightarrow> h e t' | (Inr x, t') \<Rightarrow> (Inr x, t'))"

text \<open>\<open>try: m  finally: f\<close>: \<open>f\<close> always runs; an exception of \<open>f\<close> replaces the outcome.\<close>

definition try_finally :: "'a prog \<Rightarrow> unit prog \<Rightarrow> 'a prog" where
  "try_finally m f t =
     (case m t of (r, t') \<Rightarrow>
        (case f t' of (Inl e, t'') \<Rightarrow> (Inl e, t'') | (Inr _, t'') \<Rightarrow> (r, t'')))"

definition log :: "level \<Rightarrow> piece list \<Rightarrow> unit prog" where
  "log l ps t = (Inr (), t @ [Log l ps])"

definition call :: "env \<Rightarrow> action \<Rightarrow> unit prog" where
  "call env a t =
     (case respond env t a of
        Some e \<Rightarrow> (Inl e, t @ [Call a (Some e)])
      | None \<Rightarrow> (Inr (), t @ [Call a None]))"

definition read_worksheet_as_table :: "env \<Rightarrow> string \<Rightarrow> bool \<Rightarrow> (row list) prog" where
  "read_worksheet_as_table env name header t =
     (case call env (ReadWorksheet name header) t of
        (Inl e, t') \<Rightarrow> (Inl e, t')
      | (Inr _, t') \<Rightarrow> (Inr (worksheet env t), t'))"

definition inner_html :: "env \<Rightarrow> string \<Rightarrow> string prog" where
  "inner_html env sel t =
     (case call env (InnerHtml sel) t of
        (Inl e, t') \<Rightarrow> (Inl e, t')
      | (Inr _, t') \<Rightarrow> (Inr (region_html env t), t'))"

section \<open>Python helpers\<close>

definition getitem :: "row \<Rightarrow> string \<Rightarrow> cell prog" where
  "getitem r k = (case map_of r k of None \<Rightarrow> raise (KeyError k) | Some c \<Rightarrow> ret c)"

definition falsy :: "string option \<Rightarrow> bool" where
  "falsy v = (case v of None \<Rightarrow> True | Some s \<Rightarrow> s = [])"

definition env_cell :: "string option \<Rightarrow> cell" where
  "env_cell v = (case v of None \<Rightarrow> CNone | Some s \<Rightarrow> CStr s)"

function show_nat :: "nat \<Rightarrow> string" where
  "show_nat n =
     (if n < 10 then [''0123456789'' ! n]
      else show_nat (n div 10) @ [''0123456789'' ! (n mod 10)])"
  by pat_completeness auto
termination
  by (relation "measure id") auto

declare show_nat.simps [simp del]

definition py_str :: "cell \<Rightarrow> string" where
  "py_str c =
     (case c of
        CStr s \<Rightarrow> s
      | CInt i \<Rightarrow> (if i < 0 then ''-'' @ show_nat (nat (- i)) else show_nat (nat i))
      | CBool b \<Rightarrow> (if b then ''True'' else ''False'')
      | CNone \<Rightarrow> ''None'')"

fun exn_class :: "exn \<Rightarrow> string" where
  "exn_class (ProcessError m) = ''ProcessError''"
| "exn_class (KeyError k) = ''KeyError''"
| "exn_class (RetryError a e) = ''RetryError''"
| "exn_class (LibError c m) = c"

text \<open>
  \<open>str(e)\<close>, the text that \<open>{e}\<close> puts into a log line. A \<open>KeyError\<close> prints its key
  quoted (keys here are column names without quotes or escapes); a \<open>RetryError\<close> prints
  the future of its last attempt, which shows only the class of the last exception.
\<close>

fun exn_str :: "exn \<Rightarrow> string" where
  "exn_str (ProcessError m) = m"
| "exn_str (KeyError k) = [CHR 0x27] @ k @ [CHR 0x27]"
| "exn_str (RetryError a e) =
     ''RetryError[<Future at 0x'' @ a @ '' state=finished raised '' @ exn_class e @ ''>]''"
| "exn_str (LibError c m) = m"

section \<open>The retry decorator\<close>

text \<open>
  \<open>@retry(stop=stop_after_attempt(stop), wait=wait_fixed(wait))\<close> of the tenacity
  library: the function is called; when it raises and this was attempt number \<open>stop\<close>
  (or later), the decorator raises \<open>RetryError\<close> holding the last exception; otherwise it
  sleeps \<open>wait\<close> seconds and calls again. Attempts are numbered from 1.
\<close>

function retry_call :: "string \<Rightarrow> nat \<Rightarrow> nat \<Rightarrow> unit prog \<Rightarrow> nat \<Rightarrow> unit prog" where
  "retry_call addr stop wait f n t =
     (case f t of
        (Inr x, t') \<Rightarrow> (Inr x, t')
      | (Inl e, t') \<Rightarrow>
          if stop \<le> n then (Inl (RetryError addr e), t')
          else retry_call addr stop wait f (Suc n) (t' @ [Sleep wait]))"
  by pat_completeness auto
termination
  by (relation "measure (\<lambda>(addr, stop, wait, f, n, t). stop - n)") auto

declare retry_call.simps [simp del]

definition retry :: "string \<Rightarrow> nat \<Rightarrow> nat \<Rightarrow> unit prog \<Rightarrow> unit prog" where
  "retry addr stop wait f = retry_call addr stop wait f 1"

section \<open>The script\<close>

definition site_url :: string where
  "site_url = ''https://robotsparebinindustries.com/''"

definition excel_url :: string where
  "excel_url = ''https://robotsparebinindustries.com/SalesData.xlsx''"

text \<open>The two output paths, \<open>os.path.join(OUTPUT_DIR, name)\<close> with the POSIX separator.\<close>

definition screenshot_path :: string where
  "screenshot_path = ''output/sales_summary.png''"

definition pdf_path :: string where
  "pdf_path = ''output/sales_results.pdf''"

text \<open>The selector of the login button; it contains two apostrophes.\<close>

definition login_button :: string where
  "login_button = ''button:text('' @ [CHR 0x27] @ ''Log in'' @ [CHR 0x27] @ '')''"

definition log_in :: "env \<Rightarrow> unit prog" where
  "log_in env =
     try_except
       (thenE (log INFO [T ''Attempting to log in...''])
       (thenE (call env Page)
       (thenE (call env (Fill ''#username'' (env_cell (USERNAME env))))
       (thenE (call env (Fill ''#password'' (env_cell (PASSWORD env))))
       (thenE (call env (Click login_button))
              (log INFO [T ''Login successful.'']))))))
       (\<lambda>e. thenE (log ERROR [T ''Login failed.''])
                   (raise (ProcessError ''Login failed.'')))"

definition initialize_bot :: "env \<Rightarrow> unit prog" where
  "initialize_bot env =
     try_except
       (thenE (log INFO [T ''Initializing browser...''])
       (thenE (if falsy (USERNAME env) \<or> falsy (PASSWORD env)
               then thenE (log ERROR [T ''Credentials are missing in the .env file.''])
                      (raise (ProcessError
                         ''Environment variables USERNAME and PASSWORD are required.''))
               else ret ())
       (thenE (call env (Configure 100))
       (thenE (call env (Goto site_url))
       (thenE (log_in env)
              (log INFO [T ''Initialization complete.'']))))))
       (\<lambda>e. thenE (log ERROR [T ''Initialization failed: '', E e])
                   (raise (ProcessError ''Initialization failed.'')))"

text \<open>
  \<open>download_excel_file\<close> is the function \<open>download_attempt\<close> (the body as written) under
  the retry decorator with at most 3 attempts and a wait of 2 seconds.
\<close>

definition download_attempt :: "env \<Rightarrow> unit prog" where
  "download_attempt env =
     try_except
       (thenE (log INFO [T ''Downloading Excel file...''])
       (thenE (call env NewHTTP)
       (thenE (call env (Download excel_url True))
              (log INFO [T ''Excel file downloaded successfully.'']))))
       (\<lambda>e. thenE (log ERROR [T ''Failed to download Excel file.''])
                   (raise (ProcessError ''Failed to download Excel file.'')))"

definition download_excel_file :: "env \<Rightarrow> unit prog" where
  "download_excel_file env = retry (future_addr env) 3 2 (download_attempt env)"

definition fill_and_submit_sales_form :: "env \<Rightarrow> row \<Rightarrow> unit prog" where
  "fill_and_submit_sales_form env sales_rep =
     try_except
       (thenE (call env Page)
       (bindE (getitem sales_rep ''First Name'') (\<lambda>fn.
        thenE (call env (Fill ''#firstname'' fn))
       (bindE (getitem sales_rep ''Last Name'') (\<lambda>ln.
        thenE (call env (Fill ''#lastname'' ln))
       (bindE (getitem sales_rep ''Sales Target'') (\<lambda>st.
        thenE (call env (SelectOption ''#salestarget'' (py_str st)))
       (bindE (getitem sales_rep ''Sales'') (\<lambda>sa.
        thenE (call env (Fill ''#salesresult'' (CStr (py_str sa))))
       (thenE (call env (Click ''text=Submit''))
       (bindE (getitem sales_rep ''First Name'') (\<lambda>fn'.
        bindE (getitem sales_rep ''Last Name'') (\<lambda>ln'.
        log INFO [T ''Form submitted for '', C fn', T '' '', C ln'])))))))))))))
       (\<lambda>e. thenE (log ERROR [T ''Failed to submit form for '', R sales_rep, T '': '', E e])
                   (raise e))"

text \<open>The body of the \<open>for\<close> loop for one row, inside its \<open>try\<close>.\<close>

definition row_body :: "env \<Rightarrow> row \<Rightarrow> unit prog" where
  "row_body env r =
     bindE (getitem r ''First Name'') (\<lambda>fn.
     bindE (getitem r ''Last Name'') (\<lambda>ln.
     thenE (log INFO [T ''Processing data for '', C fn, T '' '', C ln])
           (fill_and_submit_sales_form env r)))"

text \<open>One turn of the loop, with the \<open>except\<close> clause that lets the loop continue.\<close>

definition process_row :: "env \<Rightarrow> row \<Rightarrow> unit prog" where
  "process_row env r =
     try_except (row_body env r)
       (\<lambda>e. log ERROR [T ''Error processing row '', R r, T '': '', E e])"

text \<open>The loop \<open>for row in data_rows\<close>, in the order of the table.\<close>

fun process_rows :: "env \<Rightarrow> row list \<Rightarrow> unit prog" where
  "process_rows env [] = ret ()"
| "process_rows env (r # rs) = thenE (process_row env r) (process_rows env rs)"

definition process_sales_data :: "env \<Rightarrow> unit prog" where
  "process_sales_data env =
     try_except
       (thenE (download_excel_file env)
       (thenE (call env NewFiles)
       (thenE (call env (OpenWorkbook ''SalesData.xlsx''))
       (bindE (read_worksheet_as_table env ''data'' True) (\<lambda>data_rows.
        thenE (call env CloseWorkbook)
       (thenE (log INFO [T ''Processing '', N (length data_rows),
                         T '' rows of sales data...''])
       (thenE (process_rows env data_rows)
              (log INFO [T ''All sales data processed.'']))))))))
       (\<lambda>e. thenE (log ERROR [T ''Error during data processing: '', E e])
                   (raise (ProcessError ''Failed to process sales data.'')))"

definition end_process :: "env \<Rightarrow> unit prog" where
  "end_process env =
     try_except
       (thenE (log INFO [T ''Taking screenshot and exporting results to PDF...''])
       (thenE (call env Page)
       (thenE (call env (Screenshot screenshot_path))
       (thenE (log INFO [T ''Screenshot saved to '', T screenshot_path])
       (bindE (inner_html env ''#sales-results'') (\<lambda>sales_results_html.
        thenE (call env NewPDF)
       (thenE (call env (HtmlToPdf sales_results_html pdf_path))
       (thenE (log INFO [T ''PDF export completed and saved to '', T pdf_path])
       (thenE (call env (Click ''text=Log out''))
              (log INFO [T ''Logged out successfully.'']))))))))))
       (\<lambda>e. log ERROR [T ''End process failed: '', E e])"

text \<open>The \<open>try\<close> block of the task with its \<open>except\<close> clause; the \<open>finally\<close> clause follows.\<close>

definition run_phases :: "env \<Rightarrow> unit prog" where
  "run_phases env =
     try_except
       (thenE (log INFO [T ''Starting the robot process...''])
       (thenE (initialize_bot env)
       (thenE (process_sales_data env)
              (log INFO [T ''Process completed successfully.'']))))
       (\<lambda>e. log ERROR [T ''An unexpected error occurred: '', E e])"

definition robot_spare_bin_python :: "env \<Rightarrow> unit prog" where
  "robot_spare_bin_python env = try_finally (run_phases env) (end_process env)"

section \<open>Observations on a trace\<close>

text \<open>The events a statement adds to the trace it starts from.\<close>

definition emitted :: "'a prog \<Rightarrow> event list \<Rightarrow> event list" where
  "emitted m t = drop (length t) (snd (m t))"

text \<open>The collaborator calls of a trace, in order, and those of them that raised.\<close>

fun calls :: "event list \<Rightarrow> action list" where
  "calls [] = []"
| "calls (Call a r # evs) = a # calls evs"
| "calls (ev # evs) = calls evs"

fun failed_calls :: "event list \<Rightarrow> (action \<times> exn) list" where
  "failed_calls [] = []"
| "failed_calls (Call a (Some e) # evs) = (a, e) # failed_calls evs"
| "failed_calls (ev # evs) = failed_calls evs"




text \<open>The first record of \<open>end_process\<close>.\<close>

definition finalizer_start :: event where
  "finalizer_start = Log INFO [T ''Taking screenshot and exporting results to PDF...'']"

section \<open>Sample environments\<close>

definition jane :: row where
  "jane = [(''First Name'', CStr ''Jane''), (''Last Name'', CStr ''Doe''),
           (''Sales Target'', CInt 200), (''Sales'', CInt 150)]"

definition timeout_error :: exn where
  "timeout_error = LibError ''TimeoutError'' ''Timeout 30000ms exceeded.''"

text \<open>Every collaborator call returns; the worksheet holds one row.\<close>

definition env_ok :: env where
  "env_ok = \<lparr>USERNAME = Some ''maria'', PASSWORD = Some ''thoushallnotpass'',
             respond = (\<lambda>t a. None), worksheet = (\<lambda>t. [jane]),
             region_html = (\<lambda>t. ''<table></table>''), future_addr = ''7f5a1c2e9d40''\<rparr>"

text \<open>The password is set but empty.\<close>

definition env_nocred :: env where
  "env_nocred = env_ok\<lparr>PASSWORD := Some []\<rparr>"

text \<open>Every collaborator call raises.\<close>

definition env_down :: env where
  "env_down = env_ok\<lparr>respond := (\<lambda>t a. Some timeout_error)\<rparr>"

text \<open>Only the screenshot raises; the worksheet is empty.\<close>

definition env_noshot :: env where
  "env_noshot =
     env_ok\<lparr>respond := (\<lambda>t a. case a of Screenshot p \<Rightarrow> Some timeout_error | _ \<Rightarrow> None),
            worksheet := (\<lambda>t. [])\<rparr>"

text \<open>Only reading the results region raises.\<close>

definition env_noregion :: env where
  "env_noregion =
     env_ok\<lparr>respond := (\<lambda>t a. case a of InnerHtml sel \<Rightarrow> Some timeout_error | _ \<Rightarrow> None)\<rparr>"

section \<open>Properties of statements that compose\<close>

text \<open>Every event a statement adds satisfies \<open>P\<close>.\<close>

definition emits :: "(event \<Rightarrow> bool) \<Rightarrow> 'a prog \<Rightarrow> bool" where
  "emits P m = (\<forall>t. \<exists>new. snd (m t) = t @ new \<and> list_all P new)"




text \<open>The first record of one download attempt.\<close>

definition download_start :: event where
  "download_start = Log INFO [T ''Downloading Excel file...'']"

fun is_sleep :: "event \<Rightarrow> bool" where
  "is_sleep (Sleep n) = True"
| "is_sleep ev = False"

text \<open>Only the download raises.\<close>

definition env_nodl :: env where
  "env_nodl =
     env_ok\<lparr>respond := (\<lambda>t a. case a of Download u b \<Rightarrow> Some timeout_error | _ \<Rightarrow> None)\<rparr>"

text \<open>The record that announces a row, built from its two name cells.\<close>

definition intent :: "cell \<Rightarrow> cell \<Rightarrow> event" where
  "intent fn ln = Log INFO [T ''Processing data for '', C fn, T '' '', C ln]"

fun is_str :: "cell \<Rightarrow> bool" where
  "is_str (CStr s) = True"
| "is_str c = False"

fun is_fill :: "action \<Rightarrow> bool" where
  "is_fill (Fill sel c) = True"
| "is_fill a = False"

text \<open>
  A browser whose \<open>fill\<close> takes strings only: any other value makes it raise. All other
  calls return.
\<close>

definition value_error :: exn where
  "value_error = LibError ''Error'' ''value: expected string''"

definition env_typed :: env where
  "env_typed =
     env_ok\<lparr>respond := (\<lambda>t a. case a of
                 Fill sel c \<Rightarrow> (if is_str c then None else Some value_error)
               | _ \<Rightarrow> None)\<rparr>"

text \<open>A row whose first name was read as a number.\<close>

definition agent7 :: row where
  "agent7 = [(''First Name'', CInt 7), (''Last Name'', CStr ''Bond''),
             (''Sales Target'', CInt 300), (''Sales'', CInt 250)]"

text \<open>The literal text a log record starts with.\<close>

fun headline :: "event \<Rightarrow> string" where
  "headline (Log l (T s # ps)) = s"
| "headline ev = []"

definition is_intent :: "event \<Rightarrow> bool" where
  "is_intent ev = (headline ev = ''Processing data for '')"

definition is_row_error :: "event \<Rightarrow> bool" where
  "is_row_error ev = (headline ev = ''Error processing row '')"

definition is_submitted :: "event \<Rightarrow> bool" where
  "is_submitted ev = (headline ev = ''Form submitted for '')"

fun is_page_call :: "event \<Rightarrow> bool" where
  "is_page_call (Call Page r) = True"
| "is_page_call ev = False"

text \<open>A row that has both name columns, and the record that announces it.\<close>

definition has_names :: "row \<Rightarrow> bool" where
  "has_names r = (map_of r ''First Name'' \<noteq> None \<and> map_of r ''Last Name'' \<noteq> None)"

definition intent_of :: "row \<Rightarrow> event option" where
  "intent_of r =
     (case map_of r ''First Name'' of
        None \<Rightarrow> None
      | Some fn \<Rightarrow> (case map_of r ''Last Name'' of
                     None \<Rightarrow> None
                   | Some ln \<Rightarrow> Some (intent fn ln)))"



text \<open>
  What \<open>fill_and_submit_sales_form\<close> adds after its first call: nothing that announces a
  row, reports a row error or asks for the page, and the record of a submitted form exactly
  when it returns.
\<close>

definition uncounted :: "event \<Rightarrow> bool" where
  "uncounted ev = (\<not> is_page_call ev \<and> \<not> is_intent ev \<and> \<not> is_row_error ev)"

definition tallies :: "'a prog \<Rightarrow> bool" where
  "tallies m =
     (\<forall>t. \<exists>new. snd (m t) = t @ new \<and> list_all uncounted new \<and>
        length (filter is_submitted new) = (if isl (fst (m t)) then 0 else 1))"

definition submits :: "'a prog \<Rightarrow> bool" where
  "submits m =
     (\<forall>t. \<exists>r0 new. snd (m t) = t @ Call Page r0 # new \<and> list_all uncounted new \<and>
        length (filter is_submitted new) = (if isl (fst (m t)) then 0 else 1))"

text \<open>The events the download with its retries can add, and those the loop over the rows can add.\<close>

fun is_fetch_event :: "event \<Rightarrow> bool" where
  "is_fetch_event (Sleep n) = True"
| "is_fetch_event (Call NewHTTP r) = True"
| "is_fetch_event (Call (Download u b) r) = True"
| "is_fetch_event (Call a r) = False"
| "is_fetch_event (Log l ps) =
     (headline (Log l ps) \<in> set [''Downloading Excel file...'',
        ''Excel file downloaded successfully.'', ''Failed to download Excel file.''])"

fun is_row_event :: "event \<Rightarrow> bool" where
  "is_row_event (Sleep n) = False"
| "is_row_event (Call Page r) = True"
| "is_row_event (Call (Fill sel c) r) = (sel \<in> set [''#firstname'', ''#lastname'', ''#salesresult''])"
| "is_row_event (Call (SelectOption sel v) r) = (sel = ''#salestarget'')"
| "is_row_event (Call (Click sel) r) = (sel = ''text=Submit'')"
| "is_row_event (Call a r) = False"
| "is_row_event (Log l ps) =
     (headline (Log l ps) \<in> set [''Processing data for '', ''Form submitted for '',
        ''Failed to submit form for '', ''Error processing row ''])"

text \<open>
  The calls on the workbook, and whether the workbook is open after a trace: a returned
  \<open>open_workbook\<close> opens it, a returned \<open>close_workbook\<close> closes it.
\<close>

fun is_workbook_call :: "event \<Rightarrow> bool" where
  "is_workbook_call (Call (OpenWorkbook p) r) = True"
| "is_workbook_call (Call (ReadWorksheet n h) r) = True"
| "is_workbook_call (Call CloseWorkbook r) = True"
| "is_workbook_call ev = False"

fun wb_after :: "bool \<Rightarrow> event list \<Rightarrow> bool" where
  "wb_after b [] = b"
| "wb_after b (Call (OpenWorkbook p) None # evs) = wb_after True evs"
| "wb_after b (Call CloseWorkbook None # evs) = wb_after False evs"
| "wb_after b (ev # evs) = wb_after b evs"

definition workbook_open :: "event list \<Rightarrow> bool" where
  "workbook_open t = wb_after False t"

text \<open>A worksheet whose header has no \<open>First Name\<close> column.\<close>

definition nameless :: row where
  "nameless = [(''Name'', CStr ''Jane Doe''), (''Sales Target'', CInt 200), (''Sales'', CInt 150)]"

definition env_nohdr :: env where
  "env_nohdr = env_ok\<lparr>worksheet := (\<lambda>t. [nameless])\<rparr>"

text \<open>Only reading the worksheet raises.\<close>

definition env_noread :: env where
  "env_noread =
     env_ok\<lparr>respond := (\<lambda>t a. case a of ReadWorksheet n h \<Rightarrow> Some timeout_error | _ \<Rightarrow> None)\<rparr>"

text \<open>The download raises on the first two attempts and returns on the third.\<close>

definition env_retry2 :: env where
  "env_retry2 =
     env_ok\<lparr>respond := (\<lambda>t a. case a of
                 Download u b \<Rightarrow> (if length (filter is_sleep t) < 2 then Some timeout_error
                                  else None)
               | _ \<Rightarrow> None)\<rparr>"

text \<open>A row that has the four columns the form needs.\<close>

definition has_fields :: "row \<Rightarrow> bool" where
  "has_fields r =
     (map_of r ''First Name'' \<noteq> None \<and> map_of r ''Last Name'' \<noteq> None \<and>
      map_of r ''Sales Target'' \<noteq> None \<and> map_of r ''Sales'' \<noteq> None)"

text \<open>What a trace holds before the worksheet was read.\<close>

definition before_read :: "event list \<Rightarrow> event list" where
  "before_read evs = takeWhile (\<lambda>ev. ev \<noteq> Call (ReadWorksheet ''data'' True) None) evs"

text \<open>A row without the \<open>Sales\<close> column.\<close>

definition unsold :: row where
  "unsold = [(''First Name'', CStr ''Jane''), (''Last Name'', CStr ''Doe''),
             (''Sales Target'', CInt 200)]"

text \<open>
  The rows the reader returned in a run of the processing phase from \<open>t\<close>, and the trace
  at which the loop over them starts.
\<close>

definition loaded_rows :: "env \<Rightarrow> event list \<Rightarrow> row list" where
  "loaded_rows env t = worksheet env (t @ before_read (emitted (process_sales_data env) t))"

definition loop_start :: "env \<Rightarrow> event list \<Rightarrow> event list" where
  "loop_start env t =
     t @ before_read (emitted (process_sales_data env) t)
       @ [Call (ReadWorksheet ''data'' True) None, Call CloseWorkbook None,
          Log INFO [T ''Processing '', N (length (loaded_rows env t)),
                    T '' rows of sales data...'']]"


section \<open>Rules for the trace properties\<close>

lemmas prog_defs = ret_def raise_def bindE_def thenE_def try_except_def try_finally_def
  log_def call_def read_worksheet_as_table_def inner_html_def getitem_def

lemma emitsD: "emits P m \<Longrightarrow> \<exists>new. snd (m t) = t @ new \<and> list_all P new"
  by (simp add: emits_def)

lemma emits_emitted: "emits P m \<Longrightarrow> snd (m t) = t @ emitted m t \<and> list_all P (emitted m t)"
  by (auto simp: emits_def emitted_def dest!: spec[of _ t])

lemma emits_ret: "emits P (ret x)"
  by (simp add: emits_def ret_def)

lemma emits_raise: "emits P (raise e)"
  by (simp add: emits_def raise_def)

lemma emits_log: "P (Log l ps) \<Longrightarrow> emits P (log l ps)"
  by (simp add: emits_def log_def)

lemma emits_call: "(\<And>r. P (Call a r)) \<Longrightarrow> emits P (call env a)"
  by (simp add: emits_def call_def split: option.splits)

lemma emits_bindE: "emits P m \<Longrightarrow> (\<And>x. emits P (k x)) \<Longrightarrow> emits P (bindE m k)"
  unfolding emits_def bindE_def
proof (intro allI)
  fix t
  assume m: "\<forall>t. \<exists>new. snd (m t) = t @ new \<and> list_all P new"
     and k: "\<And>x. \<forall>t. \<exists>new. snd (k x t) = t @ new \<and> list_all P new"
  obtain r t' where mt: "m t = (r, t')" by (cases "m t")
  from m mt obtain n1 where n1: "t' = t @ n1" "list_all P n1" by (metis snd_conv)
  show "\<exists>new. snd (case m t of (Inl e, t') \<Rightarrow> (Inl e, t') | (Inr x, t') \<Rightarrow> k x t') = t @ new \<and> list_all P new"
  proof (cases r)
    case (Inl e)
    with mt n1 show ?thesis by simp
  next
    case (Inr x)
    from k[of x] obtain n2 where "snd (k x t') = t' @ n2" "list_all P n2" by blast
    with Inr mt n1 show ?thesis by simp
  qed
qed

lemma emits_thenE: "emits P m \<Longrightarrow> emits P k \<Longrightarrow> emits P (thenE m k)"
  by (simp add: thenE_def emits_bindE)

lemma emits_try_except: "emits P m \<Longrightarrow> (\<And>e. emits P (h e)) \<Longrightarrow> emits P (try_except m h)"
  unfolding emits_def try_except_def
proof (intro allI)
  fix t
  assume m: "\<forall>t. \<exists>new. snd (m t) = t @ new \<and> list_all P new"
     and h: "\<And>e. \<forall>t. \<exists>new. snd (h e t) = t @ new \<and> list_all P new"
  obtain r t' where mt: "m t = (r, t')" by (cases "m t")
  from m mt obtain n1 where n1: "t' = t @ n1" "list_all P n1" by (metis snd_conv)
  show "\<exists>new. snd (case m t of (Inl e, t') \<Rightarrow> h e t' | (Inr x, t') \<Rightarrow> (Inr x, t')) = t @ new \<and> list_all P new"
  proof (cases r)
    case (Inr x)
    with mt n1 show ?thesis by simp
  next
    case (Inl e)
    from h[of e] obtain n2 where "snd (h e t') = t' @ n2" "list_all P n2" by blast
    with Inl mt n1 show ?thesis by simp
  qed
qed

lemma emits_try_finally: "emits P m \<Longrightarrow> emits P f \<Longrightarrow> emits P (try_finally m f)"
  unfolding emits_def try_finally_def
proof (intro allI)
  fix t
  assume m: "\<forall>t. \<exists>new. snd (m t) = t @ new \<and> list_all P new"
     and f: "\<forall>t. \<exists>new. snd (f t) = t @ new \<and> list_all P new"
  obtain r t' where mt: "m t = (r, t')" by (cases "m t")
  from m mt obtain n1 where n1: "t' = t @ n1" "list_all P n1" by (metis snd_conv)
  from f obtain n2 where n2: "snd (f t') = t' @ n2" "list_all P n2" by blast
  obtain r2 t2 where ft: "f t' = (r2, t2)" by (cases "f t'")
  show "\<exists>new. snd (case m t of (r, t') \<Rightarrow> (case f t' of (Inl e, t'') \<Rightarrow> (Inl e, t'') | (Inr _, t'') \<Rightarrow> (r, t''))) = t @ new \<and> list_all P new"
    using mt n1 n2 ft by (cases r2) auto
qed

lemma emits_read_worksheet:
  "(\<And>r. P (Call (ReadWorksheet name header) r)) \<Longrightarrow> emits P (read_worksheet_as_table env name header)"
  by (simp add: emits_def read_worksheet_as_table_def call_def split: option.splits)

lemma emits_inner_html:
  "(\<And>r. P (Call (InnerHtml sel) r)) \<Longrightarrow> emits P (inner_html env sel)"
  by (simp add: emits_def inner_html_def call_def split: option.splits)

lemma emits_getitem: "emits P (getitem r k)"
  by (simp add: getitem_def emits_ret emits_raise split: option.splits)

lemma retry_call_extends:
  "emits P f \<Longrightarrow> P (Sleep wait) \<Longrightarrow>
   \<exists>new. snd (retry_call addr stop wait f n t) = t @ new \<and> list_all P new"
proof (induction addr stop wait f n t rule: retry_call.induct)
  case (1 addr stop wait f n t)
  obtain r t' where ft: "f t = (r, t')" by (cases "f t")
  from "1.prems"(1) ft obtain n1 where n1: "t' = t @ n1" "list_all P n1"
    unfolding emits_def by (metis snd_conv)
  show ?case
  proof (cases r)
    case (Inr x)
    with ft n1 show ?thesis by (simp add: retry_call.simps[of _ _ _ _ _ t])
  next
    case (Inl e)
    show ?thesis
    proof (cases "stop \<le> n")
      case True
      with Inl ft n1 show ?thesis by (simp add: retry_call.simps[of _ _ _ _ _ t])
    next
      case False
      from "1.IH"[OF ft[symmetric] Inl False "1.prems"]
      obtain n2 where "snd (retry_call addr stop wait f (Suc n) (t' @ [Sleep wait])) = (t' @ [Sleep wait]) @ n2" "list_all P n2"
        by blast
      with Inl ft n1 False "1.prems"(2) show ?thesis by (simp add: retry_call.simps[of _ _ _ _ _ t])
    qed
  qed
qed

lemma emits_retry_call:
  assumes "emits P f" and "P (Sleep wait)"
  shows "emits P (retry_call addr stop wait f n)"
  unfolding emits_def using retry_call_extends[OF assms] by blast

lemma emits_retry: "emits P f \<Longrightarrow> P (Sleep wait) \<Longrightarrow> emits P (retry addr stop wait f)"
  unfolding retry_def by (rule emits_retry_call)

lemma emits_if: "emits P a \<Longrightarrow> emits P b \<Longrightarrow> emits P (if c then a else b)"
  by simp





































lemma try_except_returns:
  "(\<And>e s. fst (h e s) = Inr ()) \<Longrightarrow> fst (try_except m h t) = Inr ()"
  by (cases "m t") (auto simp: try_except_def split: sum.splits)


lemma end_process_returns: "fst (end_process env t) = Inr ()"
  unfolding end_process_def by (rule try_except_returns) (simp add: log_def)




section \<open>The finalizer\<close>

lemma end_process_cases:
  assumes "\<And>e. Q (Inr (), t @ [finalizer_start, Call Page (Some e),
                   Log ERROR [T ''End process failed: '', E e]])"
    and "\<And>e. Q (Inr (), t @ [finalizer_start, Call Page None,
                   Call (Screenshot screenshot_path) (Some e),
                   Log ERROR [T ''End process failed: '', E e]])"
    and "\<And>e. Q (Inr (), t @ [finalizer_start, Call Page None,
                   Call (Screenshot screenshot_path) None,
                   Log INFO [T ''Screenshot saved to '', T screenshot_path],
                   Call (InnerHtml ''#sales-results'') (Some e),
                   Log ERROR [T ''End process failed: '', E e]])"
    and "\<And>e. Q (Inr (), t @ [finalizer_start, Call Page None,
                   Call (Screenshot screenshot_path) None,
                   Log INFO [T ''Screenshot saved to '', T screenshot_path],
                   Call (InnerHtml ''#sales-results'') None,
                   Call NewPDF (Some e),
                   Log ERROR [T ''End process failed: '', E e]])"
    and "\<And>e h. Q (Inr (), t @ [finalizer_start, Call Page None,
                   Call (Screenshot screenshot_path) None,
                   Log INFO [T ''Screenshot saved to '', T screenshot_path],
                   Call (InnerHtml ''#sales-results'') None,
                   Call NewPDF None,
                   Call (HtmlToPdf h pdf_path) (Some e),
                   Log ERROR [T ''End process failed: '', E e]])"
    and "\<And>e h. Q (Inr (), t @ [finalizer_start, Call Page None,
                   Call (Screenshot screenshot_path) None,
                   Log INFO [T ''Screenshot saved to '', T screenshot_path],
                   Call (InnerHtml ''#sales-results'') None,
                   Call NewPDF None,
                   Call (HtmlToPdf h pdf_path) None,
                   Log INFO [T ''PDF export completed and saved to '', T pdf_path],
                   Call (Click ''text=Log out'') (Some e),
                   Log ERROR [T ''End process failed: '', E e]])"
    and "\<And>h. Q (Inr (), t @ [finalizer_start, Call Page None,
                   Call (Screenshot screenshot_path) None,
                   Log INFO [T ''Screenshot saved to '', T screenshot_path],
                   Call (InnerHtml ''#sales-results'') None,
                   Call NewPDF None,
                   Call (HtmlToPdf h pdf_path) None,
                   Log INFO [T ''PDF export completed and saved to '', T pdf_path],
                   Call (Click ''text=Log out'') None,
                   Log INFO [T ''Logged out successfully.'']])"
  shows "Q (end_process env t)"
  by (simp add: end_process_def prog_defs finalizer_start_def[symmetric] assms
      split: option.splits)

lemma robot_decomp:
  "robot_spare_bin_python env t =
     (fst (run_phases env t), snd (end_process env (snd (run_phases env t))))"
proof -
  obtain r t' where rp: "run_phases env t = (r, t')" by (cases "run_phases env t")
  obtain t2 where "end_process env t' = (Inr (), t2)"
    using end_process_returns[of env t'] by (cases "end_process env t'") auto
  with rp show ?thesis by (simp add: robot_spare_bin_python_def try_finally_def)
qed

lemmas script_defs = robot_spare_bin_python_def run_phases_def initialize_bot_def log_in_def
  process_sales_data_def download_excel_file_def retry_def download_attempt_def
  process_row_def row_body_def fill_and_submit_sales_form_def end_process_def
  falsy_def env_cell_def py_str_def

lemmas env_defs = env_ok_def env_nocred_def env_down_def env_noshot_def env_noregion_def
  timeout_error_def jane_def

section \<open>Claims about initialisation and the top-level task\<close>

text \<open>
  C8. When either credential is unset or empty, \<open>initialize_bot\<close> fails, and it does so
  before any collaborator is called: all it leaves in the trace are three log records.
  The exception that leaves \<open>initialize_bot\<close> is the script's \<open>ProcessError\<close>.
\<close>

theorem initialize_missing_credentials:
  "falsy (USERNAME env) \<or> falsy (PASSWORD env) \<Longrightarrow>
   initialize_bot env t =
     (Inl (ProcessError ''Initialization failed.''),
      t @ [Log INFO [T ''Initializing browser...''],
           Log ERROR [T ''Credentials are missing in the .env file.''],
           Log ERROR [T ''Initialization failed: '',
                      E (ProcessError
                           ''Environment variables USERNAME and PASSWORD are required.'')]])
   \<and> calls (emitted (initialize_bot env) t) = []"
  by (simp add: emitted_def initialize_bot_def prog_defs)

theorem initialize_missing_credentials_witness:
  "falsy (PASSWORD env_nocred) \<and>
   fst (initialize_bot env_nocred []) = Inl (ProcessError ''Initialization failed.'') \<and>
   calls (snd (initialize_bot env_nocred [])) = []"
  using initialize_missing_credentials[of env_nocred "[]"]
  by (simp add: env_nocred_def env_ok_def falsy_def)

text \<open>
  C7. A failure inside \<open>end_process\<close> stays inside it: \<open>end_process\<close> always returns, it only
  adds to the trace (what the batch phase logged is untouched), at most one of its calls
  raises and that exception is then the last thing logged, and the outcome of the task is
  the outcome of the phases before it.
\<close>

theorem end_process_contained:
  "fst (end_process env t) = Inr ()
   \<and> snd (end_process env t) = t @ emitted (end_process env) t
   \<and> (failed_calls (emitted (end_process env) t) = [] \<or>
      (\<exists>a e. failed_calls (emitted (end_process env) t) = [(a, e)] \<and>
             last (emitted (end_process env) t) =
               Log ERROR [T ''End process failed: '', E e]))
   \<and> robot_spare_bin_python env t =
       (fst (run_phases env t), snd (end_process env (snd (run_phases env t))))"
proof -
  have "snd (end_process env t) = t @ emitted (end_process env) t"
    unfolding emitted_def
    by (rule end_process_cases[where Q="\<lambda>r. snd r = t @ drop (length t) (snd r)"]) simp_all
  moreover have "failed_calls (emitted (end_process env) t) = [] \<or>
      (\<exists>a e. failed_calls (emitted (end_process env) t) = [(a, e)] \<and>
             last (emitted (end_process env) t) =
               Log ERROR [T ''End process failed: '', E e])"
    unfolding emitted_def
    by (rule end_process_cases[where Q="\<lambda>r. failed_calls (drop (length t) (snd r)) = [] \<or>
      (\<exists>a e. failed_calls (drop (length t) (snd r)) = [(a, e)] \<and>
         last (drop (length t) (snd r)) = Log ERROR [T ''End process failed: '', E e])"])
       (simp_all add: finalizer_start_def)
  ultimately show ?thesis
    using end_process_returns[of env t] robot_decomp[of env t] by simp
qed

theorem end_process_contained_witness:
  "failed_calls (emitted (end_process env_noregion) []) =
     [(InnerHtml ''#sales-results'', timeout_error)]
   \<and> last (emitted (end_process env_noregion) []) =
       Log ERROR [T ''End process failed: '', E timeout_error]
   \<and> fst (end_process env_noregion []) = Inr ()"
  using end_process_contained[of env_noregion "[]"]
  by (simp add: emitted_def end_process_def prog_defs env_defs)

text \<open>
  C6, as the code has it. \<open>end_process\<close> is one \<open>try\<close> block with the logout as its last
  call, so the logout is attempted exactly when every call before it returned: a call of
  \<open>end_process\<close> that raised can only be the logout itself.
\<close>

theorem logout_needs_export:
  "(Click ''text=Log out'' \<in> set (calls (emitted (end_process env) t))) =
   list_all (\<lambda>(a, e). a = Click ''text=Log out'') (failed_calls (emitted (end_process env) t))"
  unfolding emitted_def
  by (rule end_process_cases[where Q="\<lambda>r.
        (Click ''text=Log out'' \<in> set (calls (drop (length t) (snd r)))) =
        list_all (\<lambda>(a, e). a = Click ''text=Log out'')
          (failed_calls (drop (length t) (snd r)))"])
     (simp_all add: finalizer_start_def)

text \<open>
  C6 as stated fails: when the screenshot raises, the run reaches the finalizer and ends
  without the logout being attempted.
\<close>

theorem logout_skipped_counterexample:
  "finalizer_start \<in> set (snd (robot_spare_bin_python env_noshot []))
   \<and> (Screenshot screenshot_path, timeout_error)
       \<in> set (failed_calls (snd (robot_spare_bin_python env_noshot [])))
   \<and> Click ''text=Log out'' \<notin> set (calls (snd (robot_spare_bin_python env_noshot [])))"
  by (simp add: script_defs prog_defs env_defs retry_call.simps finalizer_start_def
      screenshot_path_def login_button_def)


section \<open>The download and its retries\<close>

lemma download_attempt_cases:
  assumes "\<And>e. Q (Inl (ProcessError ''Failed to download Excel file.''),
                   t @ [download_start, Call NewHTTP (Some e),
                        Log ERROR [T ''Failed to download Excel file.'']])"
    and "\<And>e. Q (Inl (ProcessError ''Failed to download Excel file.''),
                   t @ [download_start, Call NewHTTP None,
                        Call (Download excel_url True) (Some e),
                        Log ERROR [T ''Failed to download Excel file.'']])"
    and "Q (Inr (), t @ [download_start, Call NewHTTP None,
                        Call (Download excel_url True) None,
                        Log INFO [T ''Excel file downloaded successfully.'']])"
  shows "Q (download_attempt env t)"
  by (simp add: download_attempt_def prog_defs download_start_def[symmetric] assms
      split: option.splits)

text \<open>
  One attempt: it starts with its log record, never sleeps, and either returns with no
  call that raised or fails, in one way only, with exactly one call that raised.
\<close>

lemma download_attempt_summary:
  "\<exists>new. snd (download_attempt env t) = t @ download_start # new
     \<and> count_list new download_start = 0 \<and> filter is_sleep new = []
     \<and> (fst (download_attempt env t) = Inr () \<and> failed_calls new = [] \<or>
        fst (download_attempt env t) = Inl (ProcessError ''Failed to download Excel file.'')
        \<and> length (failed_calls new) = 1)"
  by (rule download_attempt_cases[where Q="\<lambda>r. \<exists>new. snd r = t @ download_start # new
     \<and> count_list new download_start = 0 \<and> filter is_sleep new = []
     \<and> (fst r = Inr () \<and> failed_calls new = [] \<or>
        fst r = Inl (ProcessError ''Failed to download Excel file.'')
        \<and> length (failed_calls new) = 1)"])
     (simp_all add: download_start_def)

lemma failed_calls_app: "failed_calls (xs @ ys) = failed_calls xs @ failed_calls ys"
  by (induction xs rule: failed_calls.induct) simp_all

lemma download_excel_file_unfold:
  "download_excel_file env t =
     (case download_attempt env t of
        (Inr u, t1) \<Rightarrow> (Inr u, t1)
      | (Inl e1, t1) \<Rightarrow>
          (case download_attempt env (t1 @ [Sleep 2]) of
             (Inr u, t2) \<Rightarrow> (Inr u, t2)
           | (Inl e2, t2) \<Rightarrow>
               (case download_attempt env (t2 @ [Sleep 2]) of
                  (Inr u, t3) \<Rightarrow> (Inr u, t3)
                | (Inl e3, t3) \<Rightarrow> (Inl (RetryError (future_addr env) e3), t3))))"
proof -
  let ?f = "download_attempt env"
  let ?rc = "retry_call (future_addr env) 3 2 ?f"
  have 3: "?rc (Suc (Suc (Suc 0))) s =
      (case ?f s of (Inr u, t3) \<Rightarrow> (Inr u, t3)
       | (Inl e3, t3) \<Rightarrow> (Inl (RetryError (future_addr env) e3), t3))" for s
    by (subst retry_call.simps) (simp split: prod.splits sum.splits)
  have 2: "?rc (Suc (Suc 0)) s =
      (case ?f s of (Inr u, t2) \<Rightarrow> (Inr u, t2)
       | (Inl e2, t2) \<Rightarrow> ?rc (Suc (Suc (Suc 0))) (t2 @ [Sleep 2]))" for s
    by (subst retry_call.simps) (simp split: prod.splits sum.splits)
  have 1: "?rc (Suc 0) s =
      (case ?f s of (Inr u, t1) \<Rightarrow> (Inr u, t1)
       | (Inl e1, t1) \<Rightarrow> ?rc (Suc (Suc 0)) (t1 @ [Sleep 2]))" for s
    by (subst retry_call.simps) (simp split: prod.splits sum.splits)
  show ?thesis
    by (simp add: download_excel_file_def retry_def 1 2 3 split: prod.splits sum.splits)
qed

lemma no_url_without_slash: "CHR ''/'' \<notin> set m \<Longrightarrow> \<not> sublist excel_url m"
proof
  assume "CHR ''/'' \<notin> set m" and "sublist excel_url m"
  from this(2) have "set excel_url \<subseteq> set m" by (rule set_mono_sublist)
  moreover have "CHR ''/'' \<in> set excel_url" by (simp add: excel_url_def)
  ultimately show False using \<open>CHR ''/'' \<notin> set m\<close> by blast
qed

lemma download_counts:
  "\<exists>n k. count_list (emitted (download_excel_file env) t) download_start = n
     \<and> length (failed_calls (emitted (download_excel_file env) t)) = k
     \<and> n = min 3 (Suc k)
     \<and> filter is_sleep (emitted (download_excel_file env) t) = replicate (n - 1) (Sleep 2)
     \<and> fst (download_excel_file env t) =
         (if k = 3
          then Inl (RetryError (future_addr env)
                      (ProcessError ''Failed to download Excel file.''))
          else Inr ())"
proof -
  let ?PE = "ProcessError ''Failed to download Excel file.''"
  let ?f = "download_attempt env"
  obtain r1 t1 where a1: "?f t = (r1, t1)" by (cases "?f t")
  from download_attempt_summary[of env t] a1 obtain n1 where
    n1: "t1 = t @ download_start # n1" "count_list n1 download_start = 0"
        "filter is_sleep n1 = []"
        "r1 = Inr () \<and> failed_calls n1 = [] \<or> r1 = Inl ?PE \<and> length (failed_calls n1) = 1"
    by auto
  have two: "replicate 2 (Sleep 2) = [Sleep 2, Sleep 2]" by (simp add: numeral_2_eq_2)
  show ?thesis
  proof (cases "r1 = Inr ()")
    case True
    with a1 have "download_excel_file env t = (Inr (), t1)"
      by (simp add: download_excel_file_unfold)
    moreover from this n1(1) have "emitted (download_excel_file env) t = download_start # n1"
      by (simp add: emitted_def)
    ultimately show ?thesis using n1 True by (simp add: download_start_def)
  next
    case False
    with n1 have r1: "r1 = Inl ?PE" "length (failed_calls n1) = 1" by auto
    let ?t2 = "t1 @ [Sleep 2]"
    obtain r2 t2 where a2: "?f ?t2 = (r2, t2)" by (cases "?f ?t2")
    from download_attempt_summary[of env ?t2] a2 obtain n2 where
      n2: "t2 = ?t2 @ download_start # n2" "count_list n2 download_start = 0"
          "filter is_sleep n2 = []"
          "r2 = Inr () \<and> failed_calls n2 = [] \<or> r2 = Inl ?PE \<and> length (failed_calls n2) = 1"
      by auto
    show ?thesis
    proof (cases "r2 = Inr ()")
      case True
      with a1 a2 r1 have res: "download_excel_file env t = (Inr (), t2)"
        by (simp add: download_excel_file_unfold)
      have "t2 = t @ download_start # n1 @ Sleep 2 # download_start # n2"
        using n1 n2 by simp
      with res have em: "emitted (download_excel_file env) t =
          download_start # n1 @ Sleep 2 # download_start # n2"
        by (simp add: emitted_def)
      from n2 True have "failed_calls n2 = []" by auto
      with n1 n2 r1 res show ?thesis
        by (simp add: em download_start_def failed_calls_app)
    next
      case False
      with n2 have r2: "r2 = Inl ?PE" "length (failed_calls n2) = 1" by auto
      let ?t3 = "t2 @ [Sleep 2]"
      obtain r3 t3 where a3: "?f ?t3 = (r3, t3)" by (cases "?f ?t3")
      from download_attempt_summary[of env ?t3] a3 obtain n3 where
        n3: "t3 = ?t3 @ download_start # n3" "count_list n3 download_start = 0"
            "filter is_sleep n3 = []"
            "r3 = Inr () \<and> failed_calls n3 = [] \<or> r3 = Inl ?PE \<and> length (failed_calls n3) = 1"
        by auto
      have tr: "t3 = t @ download_start # n1 @ Sleep 2 # download_start # n2
                  @ Sleep 2 # download_start # n3"
        using n1 n2 n3 by simp
      have res: "download_excel_file env t =
          ((case r3 of Inr x \<Rightarrow> Inr x | Inl e \<Rightarrow> Inl (RetryError (future_addr env) e)), t3)"
        using a1 a2 a3 r1 r2 by (simp add: download_excel_file_unfold split: sum.splits)
      have em: "emitted (download_excel_file env) t =
          download_start # n1 @ Sleep 2 # download_start # n2 @ Sleep 2 # download_start # n3"
        by (simp add: emitted_def res tr)
      have cnt: "count_list (emitted (download_excel_file env) t) download_start = 3"
        using n1 n2 n3 by (simp add: em download_start_def)
      have slp: "filter is_sleep (emitted (download_excel_file env) t) = [Sleep 2, Sleep 2]"
        using n1 n2 n3 by (simp add: em download_start_def)
      have fc: "length (failed_calls (emitted (download_excel_file env) t)) =
          2 + length (failed_calls n3)"
        using r1 r2 by (simp add: em download_start_def failed_calls_app)
      from n3(4) show ?thesis
      proof
        assume "r3 = Inr () \<and> failed_calls n3 = []"
        with cnt slp fc res show ?thesis by (simp add: two)
      next
        assume "r3 = Inl ?PE \<and> length (failed_calls n3) = 1"
        with cnt slp fc res show ?thesis by (simp add: two)
      qed
    qed
  qed
qed

text \<open>
  C3, as the code has it. The decorator calls the function again whenever an attempt
  raises, after a sleep of 2 seconds, until the third attempt, whose exception it wraps
  in \<open>RetryError\<close>: with \<open>k\<close> calls that raised there are \<open>min 3 (k + 1)\<close> attempts and one
  sleep of 2 seconds between two attempts, and the download fails exactly when \<open>k = 3\<close>.
  The text of that \<open>RetryError\<close> shows the address of the decorator's future object and
  the class of the last exception; with an address in hexadecimal digits it does not
  contain the URL, and the text of the \<open>ProcessError\<close> inside it contains neither the URL
  nor the digit 3.
\<close>

theorem download_retries:
  "download_excel_file env t =
     (case download_attempt env t of
        (Inr u, t1) \<Rightarrow> (Inr u, t1)
      | (Inl e1, t1) \<Rightarrow>
          (case download_attempt env (t1 @ [Sleep 2]) of
             (Inr u, t2) \<Rightarrow> (Inr u, t2)
           | (Inl e2, t2) \<Rightarrow>
               (case download_attempt env (t2 @ [Sleep 2]) of
                  (Inr u, t3) \<Rightarrow> (Inr u, t3)
                | (Inl e3, t3) \<Rightarrow> (Inl (RetryError (future_addr env) e3), t3))))
   \<and> (\<exists>n k. count_list (emitted (download_excel_file env) t) download_start = n
         \<and> length (failed_calls (emitted (download_excel_file env) t)) = k
         \<and> n = min 3 (Suc k)
         \<and> filter is_sleep (emitted (download_excel_file env) t) = replicate (n - 1) (Sleep 2)
         \<and> fst (download_excel_file env t) =
             (if k = 3
              then Inl (RetryError (future_addr env)
                          (ProcessError ''Failed to download Excel file.''))
              else Inr ()))
   \<and> exn_str (RetryError (future_addr env) (ProcessError ''Failed to download Excel file.''))
       = ''RetryError[<Future at 0x'' @ future_addr env
           @ '' state=finished raised ProcessError>]''
   \<and> (set (future_addr env) \<subseteq> set ''0123456789abcdef'' \<longrightarrow>
        \<not> sublist excel_url
            (exn_str (RetryError (future_addr env)
                        (ProcessError ''Failed to download Excel file.''))))
   \<and> \<not> sublist excel_url (exn_str (ProcessError ''Failed to download Excel file.''))
   \<and> CHR ''3'' \<notin> set (exn_str (ProcessError ''Failed to download Excel file.''))"
proof -
  have "\<not> sublist excel_url
            (exn_str (RetryError (future_addr env)
                        (ProcessError ''Failed to download Excel file.'')))"
    if "set (future_addr env) \<subseteq> set ''0123456789abcdef''"
  proof (rule no_url_without_slash)
    from that have "CHR ''/'' \<notin> set (future_addr env)" by auto
    then show "CHR ''/'' \<notin> set (exn_str (RetryError (future_addr env)
                        (ProcessError ''Failed to download Excel file.'')))"
      by simp
  qed
  moreover have "\<not> sublist excel_url (exn_str (ProcessError ''Failed to download Excel file.''))"
    by (rule no_url_without_slash) simp
  ultimately show ?thesis
    using download_excel_file_unfold[of env t] download_counts[of env t] by simp
qed

theorem download_retries_witness:
  "set (future_addr env_nodl) \<subseteq> set ''0123456789abcdef''
   \<and> length (failed_calls (emitted (download_excel_file env_nodl) [])) = 3
   \<and> fst (download_excel_file env_nodl []) =
       Inl (RetryError ''7f5a1c2e9d40'' (ProcessError ''Failed to download Excel file.''))
   \<and> \<not> sublist excel_url
         (exn_str (RetryError ''7f5a1c2e9d40'' (ProcessError ''Failed to download Excel file.'')))
   \<and> length (failed_calls (emitted (download_excel_file env_retry2) [])) = 2
   \<and> fst (download_excel_file env_retry2 []) = Inr ()
   \<and> filter is_sleep (emitted (download_excel_file env_retry2) []) = [Sleep 2, Sleep 2]"
proof -
  have h: "set (future_addr env_nodl) \<subseteq> set ''0123456789abcdef''"
    "future_addr env_nodl = ''7f5a1c2e9d40''"
    by (simp_all add: env_nodl_def env_ok_def)
  have k3: "length (failed_calls (emitted (download_excel_file env_nodl) [])) = 3"
    by (simp add: emitted_def download_excel_file_def retry_def retry_call.simps
        download_attempt_def prog_defs env_nodl_def env_ok_def)
  have k2: "length (failed_calls (emitted (download_excel_file env_retry2) [])) = 2"
    by (simp add: emitted_def download_excel_file_def retry_def retry_call.simps
        download_attempt_def prog_defs env_retry2_def env_ok_def)
  from download_retries[of env_nodl "[]"] download_retries[of env_retry2 "[]"] h k3 k2
  show ?thesis by (auto simp: numeral_2_eq_2)
qed

text \<open>
  C3 as stated fails: when every download fails, what \<open>download_excel_file\<close> raises is the
  \<open>RetryError\<close>, and neither its text nor the text of the \<open>ProcessError\<close> inside it
  contains the URL of the file.
\<close>

theorem fetch_error_counterexample:
  "fst (download_excel_file env_nodl []) =
     Inl (RetryError ''7f5a1c2e9d40'' (ProcessError ''Failed to download Excel file.''))
   \<and> \<not> sublist excel_url
         (exn_str (RetryError ''7f5a1c2e9d40'' (ProcessError ''Failed to download Excel file.'')))
   \<and> \<not> sublist excel_url (exn_str (ProcessError ''Failed to download Excel file.''))"
proof -
  have "fst (download_excel_file env_nodl []) =
     Inl (RetryError ''7f5a1c2e9d40'' (ProcessError ''Failed to download Excel file.''))"
    by (simp add: download_excel_file_def retry_def retry_call.simps download_attempt_def
        prog_defs env_nodl_def env_ok_def)
  moreover have "\<not> sublist excel_url
         (exn_str (RetryError ''7f5a1c2e9d40'' (ProcessError ''Failed to download Excel file.'')))"
    by (rule no_url_without_slash) simp
  moreover have "\<not> sublist excel_url (exn_str (ProcessError ''Failed to download Excel file.''))"
    by (rule no_url_without_slash) simp
  ultimately show ?thesis by simp
qed

section \<open>One row\<close>

text \<open>
  C10. The form receives the two name cells as they are and the target and sales cells
  through \<open>str()\<close>. With a browser whose \<open>fill\<close> takes strings only (and that otherwise
  works), a row with string names is submitted whatever the type of its target and sales
  cells, and a row with a name cell that is not a string raises at that field; the
  exception is logged for the row and \<open>process_row\<close> returns, so the loop goes on.
\<close>

theorem name_cells_unconverted:
  assumes fn: "map_of r ''First Name'' = Some fn"
    and ln: "map_of r ''Last Name'' = Some ln"
    and st: "map_of r ''Sales Target'' = Some st"
    and sa: "map_of r ''Sales'' = Some sa"
    and fill: "\<And>t sel c. (respond env t (Fill sel c) = None) = is_str c"
    and other: "\<And>t a. \<not> is_fill a \<Longrightarrow> respond env t a = None"
  shows "process_row env r t =
    (Inr (), t @
      (if is_str fn \<and> is_str ln then
         [intent fn ln, Call Page None,
          Call (Fill ''#firstname'' fn) None,
          Call (Fill ''#lastname'' ln) None,
          Call (SelectOption ''#salestarget'' (py_str st)) None,
          Call (Fill ''#salesresult'' (CStr (py_str sa))) None,
          Call (Click ''text=Submit'') None,
          Log INFO [T ''Form submitted for '', C fn, T '' '', C ln]]
       else if is_str fn then
         (let e = the (respond env
                    (t @ [intent fn ln, Call Page None, Call (Fill ''#firstname'' fn) None])
                    (Fill ''#lastname'' ln))
          in [intent fn ln, Call Page None,
              Call (Fill ''#firstname'' fn) None,
              Call (Fill ''#lastname'' ln) (Some e),
              Log ERROR [T ''Failed to submit form for '', R r, T '': '', E e],
              Log ERROR [T ''Error processing row '', R r, T '': '', E e]])
       else
         (let e = the (respond env (t @ [intent fn ln, Call Page None])
                    (Fill ''#firstname'' fn))
          in [intent fn ln, Call Page None,
              Call (Fill ''#firstname'' fn) (Some e),
              Log ERROR [T ''Failed to submit form for '', R r, T '': '', E e],
              Log ERROR [T ''Error processing row '', R r, T '': '', E e]])))"
proof -
  have ok: "respond env s (Fill sel c) = None" if "is_str c" for s sel c
    using fill[of s sel c] that by simp
  have bad: "\<exists>e. respond env s (Fill sel c) = Some e" if "\<not> is_str c" for s sel c
    using fill[of s sel c] that by (cases "respond env s (Fill sel c)") simp_all
  have oth: "respond env s Page = None" "respond env s (SelectOption sel v) = None"
    "respond env s (Click sel) = None" for s sel v
    by (simp_all add: other)
  note defs = process_row_def row_body_def fill_and_submit_sales_form_def prog_defs
    intent_def[symmetric]
  show ?thesis
  proof (cases "is_str fn")
    case False
    from bad[OF False] obtain e where
      "respond env (t @ [intent fn ln, Call Page None]) (Fill ''#firstname'' fn) = Some e"
      by blast
    with False show ?thesis
      by (simp add: defs fn ln st sa oth)
  next
    case True
    note sfn = this
    show ?thesis
    proof (cases "is_str ln")
      case False
      from bad[OF False] obtain e where
        "respond env (t @ [intent fn ln, Call Page None, Call (Fill ''#firstname'' fn) None])
           (Fill ''#lastname'' ln) = Some e"
        by blast
      with False sfn show ?thesis
        by (simp add: defs fn ln st sa oth ok)
    next
      case True
      with sfn show ?thesis
        by (simp add: defs fn ln st sa oth ok)
    qed
  qed
qed

theorem name_cells_unconverted_witness:
  "process_row env_typed jane [] =
     (Inr (), [intent (CStr ''Jane'') (CStr ''Doe''), Call Page None,
               Call (Fill ''#firstname'' (CStr ''Jane'')) None,
               Call (Fill ''#lastname'' (CStr ''Doe'')) None,
               Call (SelectOption ''#salestarget'' ''200'') None,
               Call (Fill ''#salesresult'' (CStr ''150'')) None,
               Call (Click ''text=Submit'') None,
               Log INFO [T ''Form submitted for '', C (CStr ''Jane''), T '' '', C (CStr ''Doe'')]])
   \<and> process_row env_typed agent7 [] =
     (Inr (), [intent (CInt 7) (CStr ''Bond''), Call Page None,
               Call (Fill ''#firstname'' (CInt 7)) (Some value_error),
               Log ERROR [T ''Failed to submit form for '', R agent7, T '': '', E value_error],
               Log ERROR [T ''Error processing row '', R agent7, T '': '', E value_error]])"
proof -
  have fill: "\<And>t sel c. (respond env_typed t (Fill sel c) = None) = is_str c"
    by (simp add: env_typed_def env_ok_def)
  have other: "\<not> is_fill a \<Longrightarrow> respond env_typed t a = None" for t a
    by (cases a) (simp_all add: env_typed_def env_ok_def)
  have j: "map_of jane ''First Name'' = Some (CStr ''Jane'')"
    "map_of jane ''Last Name'' = Some (CStr ''Doe'')"
    "map_of jane ''Sales Target'' = Some (CInt 200)"
    "map_of jane ''Sales'' = Some (CInt 150)"
    by (simp_all add: jane_def)
  have a: "map_of agent7 ''First Name'' = Some (CInt 7)"
    "map_of agent7 ''Last Name'' = Some (CStr ''Bond'')"
    "map_of agent7 ''Sales Target'' = Some (CInt 300)"
    "map_of agent7 ''Sales'' = Some (CInt 250)"
    by (simp_all add: agent7_def)
  have s: "py_str (CInt 200) = ''200''" "py_str (CInt 150) = ''150''"
    by (simp_all add: py_str_def show_nat.simps)
  have e: "respond env_typed s (Fill sel (CInt 7)) = Some value_error" for s sel
    by (simp add: env_typed_def env_ok_def)
  show ?thesis
    using name_cells_unconverted[of jane _ _ _ _ env_typed "[]", OF j fill other]
      name_cells_unconverted[of agent7 _ _ _ _ env_typed "[]", OF a fill other]
    by (simp add: s e)
qed


section \<open>The loop over the rows\<close>

lemma tallies_log: "uncounted (Log l ps) \<Longrightarrow> is_submitted (Log l ps) \<Longrightarrow> tallies (log l ps)"
  by (simp add: tallies_def log_def)

lemma tallies_bindE:
  assumes m: "emits (\<lambda>ev. uncounted ev \<and> \<not> is_submitted ev) m"
    and k: "\<And>x. tallies (k x)"
  shows "tallies (bindE m k)"
  unfolding tallies_def
proof
  fix t
  obtain r t' where mt: "m t = (r, t')" by (cases "m t")
  from m mt obtain n1 where n1: "t' = t @ n1"
    "list_all (\<lambda>ev. uncounted ev \<and> \<not> is_submitted ev) n1"
    unfolding emits_def by (metis snd_conv)
  then have q1: "list_all uncounted n1" "filter is_submitted n1 = []"
    by (simp_all add: list_all_iff)
  show "\<exists>new. snd (bindE m k t) = t @ new \<and> list_all uncounted new \<and>
        length (filter is_submitted new) = (if isl (fst (bindE m k t)) then 0 else 1)"
  proof (cases r)
    case (Inl e)
    with mt n1 q1 show ?thesis by (simp add: bindE_def)
  next
    case (Inr x)
    from k[of x] obtain n2 where "snd (k x t') = t' @ n2" "list_all uncounted n2"
      "length (filter is_submitted n2) = (if isl (fst (k x t')) then 0 else 1)"
      unfolding tallies_def by blast
    with Inr mt n1 q1 show ?thesis by (simp add: bindE_def)
  qed
qed

lemma tallies_thenE:
  "emits (\<lambda>ev. uncounted ev \<and> \<not> is_submitted ev) m \<Longrightarrow> tallies k \<Longrightarrow> tallies (thenE m k)"
  by (simp add: thenE_def tallies_bindE)

lemma submits_page: 
  assumes k: "tallies k"
  shows "submits (thenE (call env Page) k)"
  unfolding submits_def
proof
  fix t
  show "\<exists>r0 new. snd (thenE (call env Page) k t) = t @ Call Page r0 # new \<and>
          list_all uncounted new \<and>
          length (filter is_submitted new) =
            (if isl (fst (thenE (call env Page) k t)) then 0 else 1)"
  proof (cases "respond env t Page")
    case (Some e)
    then show ?thesis by (simp add: thenE_def bindE_def call_def)
  next
    case None
    from k obtain n2 where "snd (k (t @ [Call Page None])) = (t @ [Call Page None]) @ n2" 
      "list_all uncounted n2"
      "length (filter is_submitted n2) = (if isl (fst (k (t @ [Call Page None]))) then 0 else 1)"
      unfolding tallies_def by blast
    with None show ?thesis by (simp add: thenE_def bindE_def call_def)
  qed
qed

lemma submits_reraise:
  assumes m: "submits m"
    and h: "uncounted (Log l ps)" "\<not> is_submitted (Log l ps)"
  shows "submits (try_except m (\<lambda>e. thenE (log l (ps @ [E e])) (raise e)))"
  unfolding submits_def
proof
  fix t
  obtain r t' where mt: "m t = (r, t')" by (cases "m t")
  from m mt obtain r0 n1 where n1: "t' = t @ Call Page r0 # n1" "list_all uncounted n1"
    "length (filter is_submitted n1) = (if isl r then 0 else 1)"
    unfolding submits_def by (metis fst_conv snd_conv)
  have h': "uncounted (Log l (ps @ [E e]))" "\<not> is_submitted (Log l (ps @ [E e]))" for e
    using h by (cases ps; cases "hd ps"; simp add: uncounted_def is_intent_def is_row_error_def is_submitted_def)+
  let ?f = "try_except m (\<lambda>e. thenE (log l (ps @ [E e])) (raise e))"
  show "\<exists>r0 new. snd (?f t) = t @ Call Page r0 # new \<and> list_all uncounted new \<and>
          length (filter is_submitted new) = (if isl (fst (?f t)) then 0 else 1)"
  proof (cases r)
    case (Inr x)
    with mt n1 show ?thesis by (simp add: try_except_def)
  next
    case (Inl e)
    with mt n1 h'[of e] show ?thesis
      by (simp add: try_except_def thenE_def bindE_def log_def raise_def)
  qed
qed

lemma submits_fill_and_submit: "submits (fill_and_submit_sales_form env r)"
proof -
  have eq: "(\<lambda>e. thenE (log ERROR [T ''Failed to submit form for '', R r, T '': '', E e]) (raise e))
      = (\<lambda>e. thenE (log ERROR ([T ''Failed to submit form for '', R r, T '': ''] @ [E e])) (raise e))"
    by simp
  show ?thesis
    unfolding fill_and_submit_sales_form_def eq
    by (intro submits_reraise submits_page tallies_bindE tallies_thenE tallies_log
          emits_getitem emits_call)
       (simp_all add: uncounted_def is_intent_def is_row_error_def is_submitted_def)
qed

lemma process_row_counted:
  assumes "has_names r"
  shows "\<exists>ev r0 new. intent_of r = Some ev \<and> is_intent ev
     \<and> process_row env r t = (Inr (), t @ ev # Call Page r0 # new)
     \<and> list_all (\<lambda>ev. \<not> is_page_call ev \<and> \<not> is_intent ev) new
     \<and> length (filter is_row_error new) = (if isl (fst (row_body env r t)) then 1 else 0)
     \<and> length (filter is_submitted new) = (if isl (fst (row_body env r t)) then 0 else 1)"
proof -
  from assms obtain fn ln where
    names: "map_of r ''First Name'' = Some fn" "map_of r ''Last Name'' = Some ln"
    by (auto simp: has_names_def)
  let ?t' = "t @ [intent fn ln]"
  have rb: "row_body env r t = fill_and_submit_sales_form env r ?t'"
    by (simp add: row_body_def prog_defs names intent_def)
  obtain res t2 where f: "fill_and_submit_sales_form env r ?t' = (res, t2)"
    by (cases "fill_and_submit_sales_form env r ?t'")
  from submits_fill_and_submit[of env r] f obtain r0 n1 where
    n1: "t2 = ?t' @ Call Page r0 # n1" "list_all uncounted n1"
        "length (filter is_submitted n1) = (if isl res then 0 else 1)"
    unfolding submits_def by (metis fst_conv snd_conv)
  from n1(2) have q: "list_all (\<lambda>ev. \<not> is_page_call ev \<and> \<not> is_intent ev) n1"
    "filter is_row_error n1 = []"
    by (simp_all add: list_all_iff uncounted_def)
  have io: "intent_of r = Some (intent fn ln)" "is_intent (intent fn ln)"
    by (simp_all add: intent_of_def names intent_def is_intent_def)
  show ?thesis
  proof (cases res)
    case (Inr x)
    with f rb n1 have "process_row env r t = (Inr (), t @ intent fn ln # Call Page r0 # n1)"
      by (simp add: process_row_def try_except_def)
    with io q n1 Inr rb f show ?thesis by simp
  next
    case (Inl e)
    let ?l = "Log ERROR [T ''Error processing row '', R r, T '': '', E e]"
    from Inl f rb n1 have "process_row env r t =
        (Inr (), t @ intent fn ln # Call Page r0 # (n1 @ [?l]))"
      by (simp add: process_row_def try_except_def log_def)
    moreover have "list_all (\<lambda>ev. \<not> is_page_call ev \<and> \<not> is_intent ev) (n1 @ [?l])"
      using q by (simp add: is_intent_def)
    moreover have "length (filter is_row_error (n1 @ [?l])) = 1"
      using q by (simp add: is_row_error_def)
    moreover have "length (filter is_submitted (n1 @ [?l])) = 0"
      using n1 Inl by (simp add: is_submitted_def)
    ultimately show ?thesis using io Inl rb f by simp
  qed
qed





section \<open>The processing phase\<close>

lemmas emits_intros = emits_ret emits_raise emits_log emits_call emits_bindE emits_thenE
  emits_try_except emits_getitem emits_read_worksheet emits_inner_html emits_if

lemma emits_process_rows:
  "(\<And>r. emits P (process_row env r)) \<Longrightarrow> emits P (process_rows env rows)"
  by (induction rows) (simp_all add: emits_ret emits_thenE)

lemma emits_fetch_download_attempt: "emits is_fetch_event (download_attempt env)"
  unfolding download_attempt_def by (intro emits_intros; simp)

lemma emits_row_process_row: "emits is_row_event (process_row env r)"
  unfolding process_row_def row_body_def fill_and_submit_sales_form_def
  by (intro emits_intros; simp)

lemma download_excel_file_shape:
  "\<exists>n1. snd (download_excel_file env t) = t @ download_start # n1 \<and> list_all is_fetch_event n1"
proof -
  let ?f = "download_attempt env"
  let ?rc = "retry_call (future_addr env) 3 2 ?f"
  obtain r1 t1 where a1: "?f t = (r1, t1)" by (cases "?f t")
  from download_attempt_summary[of env t] a1 obtain n1 where
    n1: "t1 = t @ download_start # n1" by auto
  from emits_fetch_download_attempt[of env] a1 obtain m1 where
    m1: "t1 = t @ m1" "list_all is_fetch_event m1"
    unfolding emits_def by (metis snd_conv)
  with n1 have f1: "list_all is_fetch_event n1" by simp
  show ?thesis
  proof (cases r1)
    case (Inr x)
    with a1 have "download_excel_file env t = (Inr x, t1)"
      by (simp add: download_excel_file_def retry_def retry_call.simps[of _ _ _ _ _ t])
    with n1 f1 show ?thesis by simp
  next
    case (Inl e)
    let ?t2 = "t1 @ [Sleep 2]"
    from Inl a1 have s: "download_excel_file env t = ?rc (Suc (Suc 0)) ?t2"
      by (simp add: download_excel_file_def retry_def retry_call.simps[of _ _ _ _ _ t])
    have "emits is_fetch_event (?rc (Suc (Suc 0)))"
      by (rule emits_retry_call[OF emits_fetch_download_attempt]) simp
    then obtain n2 where "snd (?rc (Suc (Suc 0)) ?t2) = ?t2 @ n2" "list_all is_fetch_event n2"
      unfolding emits_def by blast
    with s n1 f1 have "snd (download_excel_file env t) = t @ download_start # (n1 @ Sleep 2 # n2)"
      "list_all is_fetch_event (n1 @ Sleep 2 # n2)"
      by simp_all
    then show ?thesis by blast
  qed
qed

lemma process_rows_shape:
  "\<exists>n2. process_rows env rows t = (Inr (), t @ n2) \<and> list_all is_row_event n2"
proof (induction rows arbitrary: t)
  case Nil
  then show ?case by (simp add: ret_def)
next
  case (Cons r rs)
  have "fst (process_row env r t) = Inr ()"
    unfolding process_row_def by (rule try_except_returns) (simp add: log_def)
  moreover from emits_row_process_row[of env r] obtain n1 where
    "snd (process_row env r t) = t @ n1" "list_all is_row_event n1"
    unfolding emits_def by blast
  ultimately have r: "process_row env r t = (Inr (), t @ n1)" "list_all is_row_event n1"
    by (cases "process_row env r t"; simp)+
  from Cons.IH[of "t @ n1"] obtain n2 where
    "process_rows env rs (t @ n1) = (Inr (), (t @ n1) @ n2)" "list_all is_row_event n2"
    by blast
  with r have "process_rows env (r # rs) t = (Inr (), t @ (n1 @ n2))"
    "list_all is_row_event (n1 @ n2)"
    by (simp_all add: thenE_def bindE_def)
  then show ?case by blast
qed

lemma process_sales_data_cases:
  assumes "\<And>n1 e. list_all is_fetch_event n1 \<Longrightarrow>
      Q (Inl (ProcessError ''Failed to process sales data.''),
         t @ download_start # n1 @ [Log ERROR [T ''Error during data processing: '', E e]])"
    and "\<And>n1 e. list_all is_fetch_event n1 \<Longrightarrow>
      Q (Inl (ProcessError ''Failed to process sales data.''),
         t @ download_start # n1 @ [Call NewFiles (Some e),
           Log ERROR [T ''Error during data processing: '', E e]])"
    and "\<And>n1 e. list_all is_fetch_event n1 \<Longrightarrow>
      Q (Inl (ProcessError ''Failed to process sales data.''),
         t @ download_start # n1 @ [Call NewFiles None,
           Call (OpenWorkbook ''SalesData.xlsx'') (Some e),
           Log ERROR [T ''Error during data processing: '', E e]])"
    and "\<And>n1 e. list_all is_fetch_event n1 \<Longrightarrow>
      Q (Inl (ProcessError ''Failed to process sales data.''),
         t @ download_start # n1 @ [Call NewFiles None,
           Call (OpenWorkbook ''SalesData.xlsx'') None,
           Call (ReadWorksheet ''data'' True) (Some e),
           Log ERROR [T ''Error during data processing: '', E e]])"
    and "\<And>n1 e. list_all is_fetch_event n1 \<Longrightarrow>
      Q (Inl (ProcessError ''Failed to process sales data.''),
         t @ download_start # n1 @ [Call NewFiles None,
           Call (OpenWorkbook ''SalesData.xlsx'') None,
           Call (ReadWorksheet ''data'' True) None,
           Call CloseWorkbook (Some e),
           Log ERROR [T ''Error during data processing: '', E e]])"
    and "\<And>n1 n2 rows s. list_all is_fetch_event n1 \<Longrightarrow> list_all is_row_event n2 \<Longrightarrow>
      rows = worksheet env (t @ download_start # n1 @ [Call NewFiles None,
           Call (OpenWorkbook ''SalesData.xlsx'') None]) \<Longrightarrow>
      s = t @ download_start # n1 @ [Call NewFiles None,
           Call (OpenWorkbook ''SalesData.xlsx'') None,
           Call (ReadWorksheet ''data'' True) None,
           Call CloseWorkbook None,
           Log INFO [T ''Processing '', N (length rows), T '' rows of sales data...'']] \<Longrightarrow>
      process_rows env rows s = (Inr (), s @ n2) \<Longrightarrow>
      Q (Inr (), s @ n2 @ [Log INFO [T ''All sales data processed.'']])"
  shows "Q (process_sales_data env t)"
proof -
  obtain r1 t1 where d: "download_excel_file env t = (r1, t1)"
    by (cases "download_excel_file env t")
  from download_excel_file_shape[of env t] d obtain n1 where
    n1: "t1 = t @ download_start # n1" "list_all is_fetch_event n1" by auto
  note defs = process_sales_data_def try_except_def thenE_def bindE_def log_def raise_def
  show ?thesis
  proof (cases r1)
    case (Inl e)
    with d n1 assms(1)[OF n1(2), of e] show ?thesis by (simp add: defs)
  next
    case (Inr u)
    show ?thesis
    proof (cases "respond env t1 NewFiles")
      case (Some e)
      with Inr d n1 assms(2)[OF n1(2), of e] show ?thesis
        by (simp add: defs call_def)
    next
      case None
      note nf = this
      let ?t2 = "t1 @ [Call NewFiles None]"
      show ?thesis
      proof (cases "respond env ?t2 (OpenWorkbook ''SalesData.xlsx'')")
        case (Some e)
        with nf Inr d n1 assms(3)[OF n1(2), of e] show ?thesis
          by (simp add: defs call_def)
      next
        case None
        note ow = this
        let ?t3 = "?t2 @ [Call (OpenWorkbook ''SalesData.xlsx'') None]"
        show ?thesis
        proof (cases "respond env ?t3 (ReadWorksheet ''data'' True)")
          case (Some e)
          with ow nf Inr d n1 assms(4)[OF n1(2), of e] show ?thesis
            by (simp add: defs call_def read_worksheet_as_table_def)
        next
          case None
          note rw = this
          let ?t4 = "?t3 @ [Call (ReadWorksheet ''data'' True) None]"
          show ?thesis
          proof (cases "respond env ?t4 CloseWorkbook")
            case (Some e)
            with rw ow nf Inr d n1 assms(5)[OF n1(2), of e] show ?thesis
              by (simp add: defs call_def read_worksheet_as_table_def)
          next
            case None
            let ?rows = "worksheet env ?t3"
            let ?t6 = "?t4 @ [Call CloseWorkbook None,
                Log INFO [T ''Processing '', N (length ?rows), T '' rows of sales data...'']]"
            from process_rows_shape[of env ?rows ?t6] obtain n2 where
              n2: "process_rows env ?rows ?t6 = (Inr (), ?t6 @ n2)" "list_all is_row_event n2"
              by blast
            from n2(1) n1(1) have n2': "process_rows env ?rows
                (t @ download_start # n1 @ [Call NewFiles None,
                   Call (OpenWorkbook ''SalesData.xlsx'') None,
                   Call (ReadWorksheet ''data'' True) None,
                   Call CloseWorkbook None,
                   Log INFO [T ''Processing '', N (length ?rows), T '' rows of sales data...'']])
              = (Inr (), t @ download_start # n1 @ [Call NewFiles None,
                   Call (OpenWorkbook ''SalesData.xlsx'') None,
                   Call (ReadWorksheet ''data'' True) None,
                   Call CloseWorkbook None,
                   Log INFO [T ''Processing '', N (length ?rows), T '' rows of sales data...'']]
                   @ n2)"
              by simp
            let ?rows' = "worksheet env (t @ download_start # n1 @ [Call NewFiles None,
                Call (OpenWorkbook ''SalesData.xlsx'') None])"
            let ?s = "t @ download_start # n1 @ [Call NewFiles None,
                   Call (OpenWorkbook ''SalesData.xlsx'') None,
                   Call (ReadWorksheet ''data'' True) None,
                   Call CloseWorkbook None,
                   Log INFO [T ''Processing '', N (length ?rows'), T '' rows of sales data...'']]"
            from n2(1) n1(1) have n2'': "process_rows env ?rows' ?s = (Inr (), ?s @ n2)"
              by simp
            from None rw ow nf Inr d n1 n2' assms(6)[OF n1(2) n2(2) refl refl n2'']
            show ?thesis
              by (simp add: defs call_def read_worksheet_as_table_def)
          qed
        qed
      qed
    qed
  qed
qed

lemma calls_append [simp]: "calls (xs @ ys) = calls xs @ calls ys"
  by (induction xs rule: calls.induct) simp_all

lemma failed_calls_append [simp]: "failed_calls (xs @ ys) = failed_calls xs @ failed_calls ys"
  by (induction xs rule: failed_calls.induct) simp_all

lemma wb_after_append [simp]: "wb_after b (xs @ ys) = wb_after (wb_after b xs) ys"
  by (induction b xs rule: wb_after.induct) simp_all

lemma calls_mem: "a \<in> set (calls xs) \<Longrightarrow> \<exists>r. Call a r \<in> set xs"
  by (induction xs rule: calls.induct) auto

lemma failed_calls_mem: "(a, e) \<in> set (failed_calls xs) \<Longrightarrow> Call a (Some e) \<in> set xs"
  by (induction xs rule: failed_calls.induct) auto

lemma fetch_not_workbook: "is_fetch_event ev \<Longrightarrow> \<not> is_workbook_call ev"
  by (cases ev rule: is_workbook_call.cases) simp_all

lemma row_not_workbook: "is_row_event ev \<Longrightarrow> \<not> is_workbook_call ev"
  by (cases ev rule: is_workbook_call.cases) simp_all

lemma fetch_not_row: "is_fetch_event ev \<Longrightarrow> \<not> is_row_event ev"
  by (cases ev rule: is_fetch_event.cases) auto

lemma no_workbook_calls:
  assumes "list_all (\<lambda>ev. \<not> is_workbook_call ev) n"
  shows "wb_after b n = b" and "filter is_workbook_call n = []"
    and "CloseWorkbook \<notin> set (calls n)"
    and "(OpenWorkbook p, e) \<notin> set (failed_calls n)"
    and "(ReadWorksheet s h, e) \<notin> set (failed_calls n)"
proof -
  from assms show "wb_after b n = b"
    by (induction b n rule: wb_after.induct) simp_all
  from assms show "filter is_workbook_call n = []"
    by (simp add: list_all_iff)
  from assms show "CloseWorkbook \<notin> set (calls n)"
    by (auto simp: list_all_iff dest!: calls_mem)
  from assms show "(OpenWorkbook p, e) \<notin> set (failed_calls n)"
    by (auto simp: list_all_iff dest!: failed_calls_mem)
  from assms show "(ReadWorksheet s h, e) \<notin> set (failed_calls n)"
    by (auto simp: list_all_iff dest!: failed_calls_mem)
qed

lemma fetch_events:
  assumes "list_all is_fetch_event n"
  shows "list_all (\<lambda>ev. \<not> is_workbook_call ev) n" and "filter is_row_event n = []"
    and "filter (\<lambda>ev. is_workbook_call ev \<or> is_row_event ev) n = []"
  using assms by (auto simp: list_all_iff fetch_not_workbook fetch_not_row)

lemma row_events:
  assumes "list_all is_row_event n"
  shows "list_all (\<lambda>ev. \<not> is_workbook_call ev) n" and "filter is_row_event n = n"
    and "filter (\<lambda>ev. is_workbook_call ev \<or> is_row_event ev) n = n"
  using assms by (auto simp: list_all_iff row_not_workbook intro: filter_True)

lemma fill_and_submit_missing:
  assumes "map_of r ''Sales Target'' = None \<or> map_of r ''Sales'' = None"
  shows "isl (fst (fill_and_submit_sales_form env r t))"
  using assms
  by (auto simp: fill_and_submit_sales_form_def prog_defs split: option.splits)

lemma process_row_missing:
  assumes "\<not> has_fields r"
  shows "\<exists>new. process_row env r t = (Inr (), t @ new)
           \<and> length (filter is_row_error new) = 1 \<and> filter is_submitted new = []"
proof (cases "has_names r")
  case False
  show ?thesis
  proof (cases "map_of r ''First Name''")
    case None
    then have "process_row env r t =
        (Inr (), t @ [Log ERROR [T ''Error processing row '', R r, T '': '',
                                 E (KeyError ''First Name'')]])"
      by (simp add: process_row_def row_body_def prog_defs)
    then show ?thesis by (simp add: is_row_error_def is_submitted_def)
  next
    case (Some fn)
    with False have "map_of r ''Last Name'' = None" by (simp add: has_names_def)
    with Some have "process_row env r t =
        (Inr (), t @ [Log ERROR [T ''Error processing row '', R r, T '': '',
                                 E (KeyError ''Last Name'')]])"
      by (simp add: process_row_def row_body_def prog_defs)
    then show ?thesis by (simp add: is_row_error_def is_submitted_def)
  qed
next
  case True
  then obtain fn ln where
    names: "map_of r ''First Name'' = Some fn" "map_of r ''Last Name'' = Some ln"
    by (auto simp: has_names_def)
  with assms have m: "map_of r ''Sales Target'' = None \<or> map_of r ''Sales'' = None"
    by (simp add: has_fields_def)
  have rb: "row_body env r t = fill_and_submit_sales_form env r (t @ [intent fn ln])"
    by (simp add: row_body_def prog_defs names intent_def)
  have raised: "isl (fst (row_body env r t))"
    unfolding rb by (rule fill_and_submit_missing[OF m])
  from process_row_counted[OF True, of env t] obtain ev r0 new where
    c: "is_intent ev" "process_row env r t = (Inr (), t @ ev # Call Page r0 # new)"
       "length (filter is_row_error new) = (if isl (fst (row_body env r t)) then 1 else 0)"
       "length (filter is_submitted new) = (if isl (fst (row_body env r t)) then 0 else 1)"
    by blast
  have "\<not> is_row_error ev" "\<not> is_submitted ev"
    using c(1) by (simp_all add: is_intent_def is_row_error_def is_submitted_def)
  with c raised show ?thesis
    by (auto simp: is_row_error_def is_submitted_def)
qed

lemma process_rows_missing:
  "list_all (\<lambda>r. \<not> has_fields r) rows \<Longrightarrow>
   \<exists>new. process_rows env rows t = (Inr (), t @ new)
     \<and> length (filter is_row_error new) = length rows \<and> filter is_submitted new = []"
proof (induction rows arbitrary: t)
  case Nil
  then show ?case by (simp add: ret_def)
next
  case (Cons r rs)
  then have hr: "\<not> has_fields r" and hrs: "list_all (\<lambda>r. \<not> has_fields r) rs" by simp_all
  from process_row_missing[OF hr, of env t] obtain n1 where
    r: "process_row env r t = (Inr (), t @ n1)"
       "length (filter is_row_error n1) = 1" "filter is_submitted n1 = []"
    by blast
  from Cons.IH[OF hrs, of "t @ n1"] obtain n2 where
    rs: "process_rows env rs (t @ n1) = (Inr (), (t @ n1) @ n2)"
        "length (filter is_row_error n2) = length rs" "filter is_submitted n2 = []"
    by blast
  from r rs have "process_rows env (r # rs) t = (Inr (), t @ (n1 @ n2))"
    "length (filter is_row_error (n1 @ n2)) = length (r # rs)"
    "filter is_submitted (n1 @ n2) = []"
    by (simp_all add: thenE_def bindE_def)
  then show ?case by blast
qed

lemma fetch_before_read:
  assumes "list_all is_fetch_event n"
  shows "takeWhile (\<lambda>ev. ev \<noteq> Call (ReadWorksheet ''data'' True) None) (n @ ys) =
         n @ takeWhile (\<lambda>ev. ev \<noteq> Call (ReadWorksheet ''data'' True) None) ys"
    and "Call CloseWorkbook None \<notin> set n"
    and "Call (ReadWorksheet name header) res \<notin> set n"
  using assms by (auto simp: list_all_iff intro!: takeWhile_append2)

lemma row_no_close:
  "list_all is_row_event n \<Longrightarrow> Call CloseWorkbook None \<notin> set n"
  by (auto simp: list_all_iff)

text \<open>
  C4, as the code has it. A failure of \<open>open_workbook\<close> or of \<open>read_worksheet_as_table\<close>
  is fatal to the phase: the phase raises \<open>ProcessError\<close> and no row has been touched.
  Nothing checks the header: once the worksheet has been read, and unless closing the
  workbook raises, the phase runs the loop over whatever rows the reader returned and
  then returns. Rows that lack an
  expected column each end in one logged row error and no submitted form, and the loop
  returns; a row without \<open>First Name\<close> raises \<open>KeyError\<close> before anything is done for it.
\<close>

theorem load_failure_is_fatal:
  "((OpenWorkbook ''SalesData.xlsx'', e)
         \<in> set (failed_calls (emitted (process_sales_data env) t)) \<or>
       (ReadWorksheet ''data'' True, e)
         \<in> set (failed_calls (emitted (process_sales_data env) t)) \<longrightarrow>
      fst (process_sales_data env t) = Inl (ProcessError ''Failed to process sales data.'')
      \<and> filter is_row_event (emitted (process_sales_data env) t) = [])
   \<and> (Call (ReadWorksheet ''data'' True) None
        \<in> set (emitted (process_sales_data env) t) \<longrightarrow>
      (\<exists>e'. Call CloseWorkbook (Some e') \<in> set (emitted (process_sales_data env) t)) \<or>
      process_sales_data env t =
        (Inr (), snd (process_rows env (loaded_rows env t) (loop_start env t))
                   @ [Log INFO [T ''All sales data processed.'']]))
   \<and> (list_all (\<lambda>r. \<not> has_fields r) rows \<longrightarrow>
      fst (process_rows env rows s) = Inr ()
      \<and> length (filter is_row_error (emitted (process_rows env rows) s)) = length rows
      \<and> filter is_submitted (emitted (process_rows env rows) s) = [])
   \<and> (map_of r ''First Name'' = None \<longrightarrow>
      process_row env r s =
        (Inr (), s @ [Log ERROR [T ''Error processing row '', R r, T '': '',
                                 E (KeyError ''First Name'')]]))"
proof -
  have fatal: "(OpenWorkbook ''SalesData.xlsx'', e)
         \<in> set (failed_calls (emitted (process_sales_data env) t)) \<or>
       (ReadWorksheet ''data'' True, e)
         \<in> set (failed_calls (emitted (process_sales_data env) t)) \<longrightarrow>
      fst (process_sales_data env t) = Inl (ProcessError ''Failed to process sales data.'')
      \<and> filter is_row_event (emitted (process_sales_data env) t) = []"
    unfolding emitted_def
    by (rule process_sales_data_cases[where Q="\<lambda>res.
          (OpenWorkbook ''SalesData.xlsx'', e) \<in> set (failed_calls (drop (length t) (snd res))) \<or>
          (ReadWorksheet ''data'' True, e) \<in> set (failed_calls (drop (length t) (snd res))) \<longrightarrow>
          fst res = Inl (ProcessError ''Failed to process sales data.'')
          \<and> filter is_row_event (drop (length t) (snd res)) = []"])
       (simp_all add: download_start_def fetch_events row_events
          no_workbook_calls[OF fetch_events(1)] no_workbook_calls[OF row_events(1)])
  have loaded: "Call (ReadWorksheet ''data'' True) None
        \<in> set (emitted (process_sales_data env) t) \<longrightarrow>
      (\<exists>e'. Call CloseWorkbook (Some e') \<in> set (emitted (process_sales_data env) t)) \<or>
      process_sales_data env t =
        (Inr (), snd (process_rows env (loaded_rows env t) (loop_start env t))
                   @ [Log INFO [T ''All sales data processed.'']])"
    unfolding loop_start_def loaded_rows_def emitted_def before_read_def
    by (rule process_sales_data_cases[where Q="\<lambda>res.
          Call (ReadWorksheet ''data'' True) None \<in> set (drop (length t) (snd res)) \<longrightarrow>
          (\<exists>e'. Call CloseWorkbook (Some e') \<in> set (drop (length t) (snd res))) \<or>
          res = (Inr (),
            snd (process_rows env
                  (worksheet env (t @ takeWhile (\<lambda>ev. ev \<noteq> Call (ReadWorksheet ''data'' True) None)
                                       (drop (length t) (snd res))))
                  (t @ takeWhile (\<lambda>ev. ev \<noteq> Call (ReadWorksheet ''data'' True) None)
                         (drop (length t) (snd res))
                     @ [Call (ReadWorksheet ''data'' True) None, Call CloseWorkbook None,
                        Log INFO [T ''Processing '',
                          N (length (worksheet env
                              (t @ takeWhile (\<lambda>ev. ev \<noteq> Call (ReadWorksheet ''data'' True) None)
                                     (drop (length t) (snd res))))),
                          T '' rows of sales data...'']]))
            @ [Log INFO [T ''All sales data processed.'']])"])
       (auto simp add: download_start_def fetch_before_read row_no_close)
  have rows: "fst (process_rows env rows s) = Inr ()
      \<and> length (filter is_row_error (emitted (process_rows env rows) s)) = length rows
      \<and> filter is_submitted (emitted (process_rows env rows) s) = []"
    if "list_all (\<lambda>r. \<not> has_fields r) rows"
  proof -
    from process_rows_missing[OF that, of env s] obtain new where
      "process_rows env rows s = (Inr (), s @ new)"
      "length (filter is_row_error new) = length rows" "filter is_submitted new = []"
      by blast
    then show ?thesis by (simp add: emitted_def)
  qed
  have first: "process_row env r s =
        (Inr (), s @ [Log ERROR [T ''Error processing row '', R r, T '': '',
                                 E (KeyError ''First Name'')]])"
    if "map_of r ''First Name'' = None"
    using that by (simp add: process_row_def row_body_def prog_defs)
  from fatal loaded rows first show ?thesis by blast
qed

theorem load_failure_is_fatal_witness:
  "(ReadWorksheet ''data'' True, timeout_error)
       \<in> set (failed_calls (emitted (process_sales_data env_noread) []))
   \<and> fst (process_sales_data env_noread []) = Inl (ProcessError ''Failed to process sales data.'')
   \<and> filter is_row_event (emitted (process_sales_data env_noread) []) = []
   \<and> Call (ReadWorksheet ''data'' True) None
       \<in> set (emitted (process_sales_data env_nohdr) [])
   \<and> loaded_rows env_nohdr [] = [nameless]
   \<and> fst (process_sales_data env_nohdr []) = Inr ()
   \<and> list_all (\<lambda>r. \<not> has_fields r) [nameless, unsold]
   \<and> length (filter is_row_error (emitted (process_rows env_ok [nameless, unsold]) [])) = 2
   \<and> filter is_submitted (emitted (process_rows env_ok [nameless, unsold]) []) = []
   \<and> map_of nameless ''First Name'' = None
   \<and> process_row env_ok nameless [] =
       (Inr (), [Log ERROR [T ''Error processing row '', R nameless, T '': '',
                            E (KeyError ''First Name'')]])"
proof -
  have n: "map_of nameless ''First Name'' = None"
    by (simp add: nameless_def)
  have m: "list_all (\<lambda>r. \<not> has_fields r) [nameless, unsold]"
    by (simp add: has_fields_def nameless_def unsold_def)
  have f: "(ReadWorksheet ''data'' True, timeout_error)
       \<in> set (failed_calls (emitted (process_sales_data env_noread) []))"
    by (simp add: emitted_def process_sales_data_def download_excel_file_def retry_def
        retry_call.simps download_attempt_def prog_defs env_noread_def env_ok_def)
  have run: "snd (process_sales_data env_nohdr []) =
      [download_start, Call NewHTTP None, Call (Download excel_url True) None,
       Log INFO [T ''Excel file downloaded successfully.''],
       Call NewFiles None, Call (OpenWorkbook ''SalesData.xlsx'') None,
       Call (ReadWorksheet ''data'' True) None, Call CloseWorkbook None,
       Log INFO [T ''Processing '', N 1, T '' rows of sales data...''],
       Log ERROR [T ''Error processing row '', R nameless, T '': '', E (KeyError ''First Name'')],
       Log INFO [T ''All sales data processed.'']]"
    by (simp add: process_sales_data_def download_excel_file_def retry_def
        retry_call.simps download_attempt_def process_row_def row_body_def prog_defs
        env_nohdr_def env_ok_def n download_start_def)
  have c: "Call (ReadWorksheet ''data'' True) None
       \<in> set (emitted (process_sales_data env_nohdr) [])"
    "\<not> (\<exists>e'. Call CloseWorkbook (Some e')
           \<in> set (emitted (process_sales_data env_nohdr) []))"
    by (simp_all add: emitted_def run download_start_def)
  have l: "loaded_rows env_nohdr [] = [nameless]"
    by (simp add: loaded_rows_def before_read_def emitted_def run download_start_def
        env_nohdr_def env_ok_def)
  from load_failure_is_fatal[of timeout_error env_noread "[]" "[nameless, unsold]" "[]" nameless]
    load_failure_is_fatal[of timeout_error env_nohdr "[]" "[nameless, unsold]" "[]" nameless]
    load_failure_is_fatal[of timeout_error env_ok "[]" "[nameless, unsold]" "[]" nameless]
    n m f c l
  show ?thesis by simp
qed

text \<open>
  C4 as stated fails: with a header that lacks \<open>First Name\<close> the load succeeds, the row is
  attempted and fails on its own, and the phase completes.
\<close>

theorem header_not_checked_counterexample:
  "map_of nameless ''First Name'' = None
   \<and> fst (process_sales_data env_nohdr []) = Inr ()
   \<and> filter is_row_event (snd (process_sales_data env_nohdr [])) =
       [Log ERROR [T ''Error processing row '', R nameless, T '': '', E (KeyError ''First Name'')]]
   \<and> last (snd (process_sales_data env_nohdr [])) = Log INFO [T ''All sales data processed.'']"
  by (simp add: process_sales_data_def download_excel_file_def retry_def
      retry_call.simps download_attempt_def process_row_def row_body_def prog_defs
      env_nohdr_def env_ok_def nameless_def)

text \<open>
  C5, as the code has it. The workbook is closed on the success path only. When the phase
  returns, the workbook is closed, and the calls on it are open, read, close, in this order
  and before anything is done for a row. When \<open>read_worksheet_as_table\<close> raises, the
  phase ends with the workbook open: \<open>close_workbook\<close> is not called.
\<close>

theorem workbook_closed_on_success_only:
  "(fst (process_sales_data env t) = Inr () \<longrightarrow>
      \<not> workbook_open (snd (process_sales_data env t))
      \<and> filter (\<lambda>ev. is_workbook_call ev \<or> is_row_event ev)
           (emitted (process_sales_data env) t) =
         Call (OpenWorkbook ''SalesData.xlsx'') None
         # Call (ReadWorksheet ''data'' True) None
         # Call CloseWorkbook None
         # filter is_row_event (emitted (process_sales_data env) t))
   \<and> ((ReadWorksheet ''data'' True, e)
         \<in> set (failed_calls (emitted (process_sales_data env) t)) \<longrightarrow>
      workbook_open (snd (process_sales_data env t))
      \<and> CloseWorkbook \<notin> set (calls (emitted (process_sales_data env) t)))"
  unfolding emitted_def workbook_open_def
  by (rule process_sales_data_cases[where Q="\<lambda>res.
        (fst res = Inr () \<longrightarrow>
          \<not> wb_after False (snd res)
          \<and> filter (\<lambda>ev. is_workbook_call ev \<or> is_row_event ev) (drop (length t) (snd res)) =
             Call (OpenWorkbook ''SalesData.xlsx'') None
             # Call (ReadWorksheet ''data'' True) None
             # Call CloseWorkbook None
             # filter is_row_event (drop (length t) (snd res)))
        \<and> ((ReadWorksheet ''data'' True, e) \<in> set (failed_calls (drop (length t) (snd res))) \<longrightarrow>
          wb_after False (snd res)
          \<and> CloseWorkbook \<notin> set (calls (drop (length t) (snd res))))"])
     (simp_all add: download_start_def fetch_events row_events
        no_workbook_calls[OF fetch_events(1)] no_workbook_calls[OF row_events(1)])

theorem workbook_closed_on_success_only_witness:
  "fst (process_sales_data env_ok []) = Inr ()
   \<and> \<not> workbook_open (snd (process_sales_data env_ok []))
   \<and> (ReadWorksheet ''data'' True, timeout_error)
       \<in> set (failed_calls (emitted (process_sales_data env_noread) []))
   \<and> workbook_open (snd (process_sales_data env_noread []))
   \<and> CloseWorkbook \<notin> set (calls (emitted (process_sales_data env_noread) []))"
proof -
  have f: "(ReadWorksheet ''data'' True, timeout_error)
       \<in> set (failed_calls (emitted (process_sales_data env_noread) []))"
    by (simp add: emitted_def process_sales_data_def download_excel_file_def retry_def
        retry_call.simps download_attempt_def prog_defs env_noread_def env_ok_def)
  have r: "fst (process_sales_data env_ok []) = Inr ()"
    by (simp add: process_sales_data_def download_excel_file_def retry_def retry_call.simps
        download_attempt_def process_row_def row_body_def fill_and_submit_sales_form_def
        prog_defs env_ok_def jane_def)
  from workbook_closed_on_success_only[of env_ok "[]" timeout_error]
    workbook_closed_on_success_only[of env_noread "[]" timeout_error] f r
  show ?thesis by simp
qed

text \<open>
  C5 as stated fails: when reading the worksheet raises, the load step is left with the
  workbook open.
\<close>

theorem workbook_left_open_counterexample:
  "fst (process_sales_data env_noread []) = Inl (ProcessError ''Failed to process sales data.'')
   \<and> workbook_open (snd (process_sales_data env_noread []))
   \<and> calls (snd (process_sales_data env_noread [])) =
       [NewHTTP, Download excel_url True, NewFiles, OpenWorkbook ''SalesData.xlsx'',
        ReadWorksheet ''data'' True]"
  by (simp add: workbook_open_def process_sales_data_def download_excel_file_def retry_def
      retry_call.simps download_attempt_def prog_defs env_noread_def env_ok_def)

section \<open>The order of the phases\<close>

lemma emits_mono:
  assumes "emits P m" and "\<And>ev. P ev \<Longrightarrow> P' ev"
  shows "emits P' m"
  unfolding emits_def
proof
  fix t
  from emitsD[OF assms(1), of t] obtain new where
    "snd (m t) = t @ new" "list_all P new" by blast
  with assms(2) show "\<exists>new. snd (m t) = t @ new \<and> list_all P' new"
    by (auto simp: list_all_iff)
qed

lemma emits_fetch_download_excel_file: "emits is_fetch_event (download_excel_file env)"
  unfolding download_excel_file_def
  by (rule emits_retry[OF emits_fetch_download_attempt]) simp

lemma emits_row_process_rows: "emits is_row_event (process_rows env rows)"
  by (rule emits_process_rows) (rule emits_row_process_row)

lemma fetch_not_finalizer: "is_fetch_event ev \<Longrightarrow> ev \<noteq> finalizer_start"
  by (auto simp: finalizer_start_def)

lemma row_not_finalizer: "is_row_event ev \<Longrightarrow> ev \<noteq> finalizer_start"
  by (auto simp: finalizer_start_def)

lemma initialize_bot_quiet:
  "emits (\<lambda>ev. ev \<noteq> download_start \<and> ev \<noteq> finalizer_start) (initialize_bot env)"
  unfolding initialize_bot_def log_in_def
  by (intro emits_intros; simp add: download_start_def finalizer_start_def)

lemma process_sales_data_no_finalizer:
  "emits (\<lambda>ev. ev \<noteq> finalizer_start) (process_sales_data env)"
  unfolding process_sales_data_def
  by (intro emits_intros
        emits_mono[OF emits_fetch_download_excel_file fetch_not_finalizer]
        emits_mono[OF emits_row_process_rows row_not_finalizer];
      simp add: finalizer_start_def)

lemma process_sales_data_starts:
  "\<exists>np. snd (process_sales_data env t) = t @ download_start # np"
  by (rule process_sales_data_cases[where Q="\<lambda>res. \<exists>np. snd res = t @ download_start # np"])
     simp_all

lemma end_process_starts:
  "\<exists>post. end_process env t = (Inr (), t @ finalizer_start # post)
     \<and> finalizer_start \<notin> set post"
  by (rule end_process_cases[where Q="\<lambda>res. \<exists>post. res = (Inr (), t @ finalizer_start # post)
     \<and> finalizer_start \<notin> set post"])
     (simp_all add: finalizer_start_def)

lemma run_phases_shape:
  "\<exists>pre. run_phases env t = (Inr (), t @ pre) \<and> finalizer_start \<notin> set pre
     \<and> (download_start \<in> set pre) =
         (fst (initialize_bot env (t @ [Log INFO [T ''Starting the robot process...'']]))
            = Inr ())"
proof -
  let ?start = "Log INFO [T ''Starting the robot process...'']"
  let ?t0 = "t @ [?start]"
  obtain ri ti where i: "initialize_bot env ?t0 = (ri, ti)"
    by (cases "initialize_bot env ?t0")
  from emitsD[OF initialize_bot_quiet, of env ?t0] i obtain ni where
    ni: "ti = ?t0 @ ni" "list_all (\<lambda>ev. ev \<noteq> download_start \<and> ev \<noteq> finalizer_start) ni"
    by auto
  then have ni': "download_start \<notin> set ni" "finalizer_start \<notin> set ni"
    by (auto simp: list_all_iff)
  have unf: "run_phases env t =
      (case initialize_bot env ?t0 of
         (Inl e, t') \<Rightarrow> (Inr (), t' @ [Log ERROR [T ''An unexpected error occurred: '', E e]])
       | (Inr u, t') \<Rightarrow>
           (case process_sales_data env t' of
              (Inl e, t'') \<Rightarrow>
                (Inr (), t'' @ [Log ERROR [T ''An unexpected error occurred: '', E e]])
            | (Inr u, t'') \<Rightarrow>
                (Inr (), t'' @ [Log INFO [T ''Process completed successfully.'']])))"
    by (simp add: run_phases_def try_except_def thenE_def bindE_def log_def
        split: prod.splits sum.splits)
  show ?thesis
  proof (cases ri)
    case (Inl e)
    let ?pre = "?start # ni @ [Log ERROR [T ''An unexpected error occurred: '', E e]]"
    have "run_phases env t = (Inr (), t @ ?pre)"
      unfolding unf i Inl ni(1) by simp
    moreover have "finalizer_start \<notin> set ?pre" "download_start \<notin> set ?pre"
      using ni' by (simp_all add: download_start_def finalizer_start_def)
    moreover have "fst (initialize_bot env ?t0) \<noteq> Inr ()"
      unfolding i Inl by simp
    ultimately show ?thesis by blast
  next
    case (Inr u)
    obtain rp tp where p: "process_sales_data env ti = (rp, tp)"
      by (cases "process_sales_data env ti")
    from process_sales_data_starts[of env ti] p obtain np where
      np: "tp = ti @ download_start # np" by auto
    from emitsD[OF process_sales_data_no_finalizer, of env ti] p obtain mp where
      "tp = ti @ mp" "list_all (\<lambda>ev. ev \<noteq> finalizer_start) mp"
      by auto
    with np have np': "finalizer_start \<notin> set np"
      by (auto simp: list_all_iff)
    let ?end = "case rp of
        Inl e \<Rightarrow> Log ERROR [T ''An unexpected error occurred: '', E e]
      | Inr _ \<Rightarrow> Log INFO [T ''Process completed successfully.'']"
    let ?pre = "?start # ni @ download_start # np @ [?end]"
    have "run_phases env t = (Inr (), tp @ [?end])"
      unfolding unf i Inr by (cases rp) (simp_all add: p)
    then have "run_phases env t = (Inr (), t @ ?pre)"
      unfolding np ni(1) by simp
    moreover have "finalizer_start \<noteq> ?end"
      by (cases rp) (simp_all add: finalizer_start_def)
    then have "finalizer_start \<notin> set ?pre"
      using ni' np' by (simp add: download_start_def finalizer_start_def)
    moreover have "download_start \<in> set ?pre" by simp
    moreover have "fst (initialize_bot env ?t0) = Inr ()"
      unfolding i Inr by simp
    ultimately show ?thesis by blast
  qed
qed

text \<open>
  C1, as the code has it. \<open>end_process\<close> is the \<open>finally\<close> clause of the whole task, so it
  runs exactly once in every run, after everything else, whether or not \<open>initialize_bot\<close>
  succeeded. What a failure of \<open>initialize_bot\<close> skips is the batch phase: the download
  is started exactly when \<open>initialize_bot\<close> returned, and then before \<open>end_process\<close>.
\<close>

theorem finalizer_runs_once:
  "\<exists>post. emitted (robot_spare_bin_python env) t =
            emitted (run_phases env) t @ finalizer_start # post
     \<and> finalizer_start \<notin> set (emitted (run_phases env) t)
     \<and> finalizer_start \<notin> set post
     \<and> (download_start \<in> set (emitted (run_phases env) t)) =
         (fst (initialize_bot env (t @ [Log INFO [T ''Starting the robot process...'']]))
            = Inr ())"
proof -
  from run_phases_shape[of env t] obtain pre where
    pre: "run_phases env t = (Inr (), t @ pre)" "finalizer_start \<notin> set pre"
      "(download_start \<in> set pre) =
         (fst (initialize_bot env (t @ [Log INFO [T ''Starting the robot process...'']]))
            = Inr ())"
    by blast
  from end_process_starts[of env "t @ pre"] obtain post where
    post: "end_process env (t @ pre) = (Inr (), (t @ pre) @ finalizer_start # post)"
      "finalizer_start \<notin> set post"
    by blast
  have "robot_spare_bin_python env t = (Inr (), (t @ pre) @ finalizer_start # post)"
    unfolding robot_decomp pre(1) by (simp add: post(1))
  then have e1: "emitted (robot_spare_bin_python env) t = pre @ finalizer_start # post"
    by (simp add: emitted_def)
  have e2: "emitted (run_phases env) t = pre"
    unfolding emitted_def pre(1) by simp
  show ?thesis
    unfolding e1 e2 using pre(2,3) post(2) by blast
qed

text \<open>
  C1 as stated fails: with an empty password \<open>initialize_bot\<close> fails, and the run still
  executes \<open>end_process\<close>, once, although the batch phase was never attempted.
\<close>

theorem finalizer_after_failed_init_counterexample:
  "fst (initialize_bot env_nocred [Log INFO [T ''Starting the robot process...'']])
     = Inl (ProcessError ''Initialization failed.'')
   \<and> count_list (snd (robot_spare_bin_python env_nocred [])) finalizer_start = 1
   \<and> download_start \<notin> set (snd (robot_spare_bin_python env_nocred []))
   \<and> calls (snd (robot_spare_bin_python env_nocred [])) =
       [Page, Screenshot screenshot_path, InnerHtml ''#sales-results'', NewPDF,
        HtmlToPdf ''<table></table>'' pdf_path, Click ''text=Log out'']"
  by (simp add: robot_spare_bin_python_def run_phases_def initialize_bot_def end_process_def
      prog_defs env_nocred_def env_ok_def falsy_def finalizer_start_def download_start_def)

section \<open>Every except clause logs\<close>




















end
